theory Spec2Isabelle
  imports Complex_Main "HOL-Library.AList"
begin

section \<open>Python values, errors and the message log\<close>

text \<open>
  The script \<^verbatim>\<open>GenerateStopPairs.py\<close> is Python 2. Values read from the SQL store are
  integers, text or NULL; \<open>route_type\<close> values are of this kind.
\<close>

datatype pyval = PInt int | PStr string | PNone

text \<open>
  The exceptions the modelled code can raise; \<open>OperationalError\<close> is the one of the store
  (\<^verbatim>\<open>sqlite3.OperationalError\<close>) for a query it cannot run.
\<close>

datatype error = CustomError | KeyError | ValueError | IndexError | OperationalError

text \<open>\<^verbatim>\<open>arcpy.AddWarning\<close> and \<^verbatim>\<open>arcpy.AddError\<close> append to a message log.\<close>

datatype log_entry = AddWarning string | AddError string

subsection \<open>Decimal text of integers: \<^verbatim>\<open>str(n)\<close> and \<^verbatim>\<open>"%s" % n\<close>\<close>

definition digit_char :: "nat \<Rightarrow> char" where
  "digit_char d = ''0123456789'' ! d"

function str_nat :: "nat \<Rightarrow> string" where
  "str_nat n = (if n < 10 then [digit_char n] else str_nat (n div 10) @ [digit_char (n mod 10)])"
  by pat_completeness auto
termination
  by (relation "measure (\<lambda>n. n)") auto

declare str_nat.simps [simp del]

definition str_int :: "int \<Rightarrow> string" where
  "str_int i = (if i < 0 then CHR ''-'' # str_nat (nat (- i)) else str_nat (nat i))"

text \<open>\<^verbatim>\<open>"%s" % v\<close>: an integer prints in decimal, text prints as itself, None as its name.\<close>

definition fmt_s :: "pyval \<Rightarrow> string" where
  "fmt_s v = (case v of PInt i \<Rightarrow> str_int i | PStr s \<Rightarrow> s | PNone \<Rightarrow> ''None'')"

section \<open>Schedule rows and the line feature dictionary\<close>

text \<open>
  A row of the query on \<open>stop_times\<close> is \<open>(stop_id, arrival_time, departure_time)\<close>; a row
  for the \<open>schedules\<close> table is \<open>(SourceOIDkey, start_time, end_time, trip_id)\<close>. Times are
  seconds from the start of the service day.
\<close>

type_synonym stop_time = "string \<times> int \<times> int"
type_synonym schedule_row = "string \<times> int \<times> int \<times> string"

text \<open>
  \<open>linefeature_dict\<close> maps a key to \<open>True\<close> while the schedules are generated and, later,
  to the ObjectID of the line feature made for it.
\<close>

datatype lfval = LTrue | LOid int

type_synonym lfdict = "string \<rightharpoonup> lfval"

text \<open>\<^verbatim>\<open>"%s , %s , %s" % (start_stop, end_stop, route_type)\<close>\<close>

definition SourceOIDkey_of :: "string \<Rightarrow> string \<Rightarrow> pyval \<Rightarrow> string" where
  "SourceOIDkey_of start_stop end_stop route_type =
     start_stop @ '' , '' @ end_stop @ '' , '' @ fmt_s route_type"

text \<open>
  \<open>trip_routetype_dict\<close> is iterated over (\<^verbatim>\<open>.keys()\<close>), so it is an association list:
  \<open>map_of\<close> is the lookup, \<open>AList.update\<close> the assignment \<^verbatim>\<open>d[k] = v\<close>, \<open>map fst\<close> the keys.
  (Python 2 leaves the order of the keys open; here it is the order in which the keys were
  first written. The rows of one trip and the keys registered do not depend on it; only the
  order in which the rows of different trips follow each other does.)
\<close>

type_synonym trip_routetype = "(string \<times> pyval) list"

section \<open>The static strategy: \<^verbatim>\<open>Make_StopsTimes_Rows\<close>\<close>

text \<open>
  The body of the loop \<^verbatim>\<open>for st in stop_times[1:]\<close>, with the loop variables
  \<open>previous_stop\<close> and \<open>start_time\<close> and the global \<open>linefeature_dict\<close> passed along. The
  rows are returned in the order the source appends them.
\<close>

fun StopsTimes_loop ::
  "pyval \<Rightarrow> string \<Rightarrow> stop_time list \<Rightarrow> string \<Rightarrow> int \<Rightarrow> lfdict \<Rightarrow> schedule_row list \<times> lfdict" where
  "StopsTimes_loop route_type trip_id [] previous_stop start_time lfd = ([], lfd)"
| "StopsTimes_loop route_type trip_id (st # sts) previous_stop start_time lfd =
     (case st of (stop_id, arrival_time, departure_time) \<Rightarrow>
        let start_stop = previous_stop;
            end_stop = stop_id;
            end_time = arrival_time;
            SourceOIDkey = SourceOIDkey_of start_stop end_stop route_type;
            lfd1 = lfd(SourceOIDkey \<mapsto> LTrue);
            rest = StopsTimes_loop route_type trip_id sts stop_id departure_time lfd1
        in ((SourceOIDkey, start_time, end_time, trip_id) # fst rest, snd rest))"

definition Make_StopsTimes_Rows ::
  "trip_routetype \<Rightarrow> string \<Rightarrow> stop_time list \<Rightarrow> lfdict \<Rightarrow> error + (schedule_row list \<times> lfdict)" where
  "Make_StopsTimes_Rows trip_routetype_dict trip_id stop_times lfd =
     (if length stop_times < 2 then Inr ([], lfd)
      else case map_of trip_routetype_dict trip_id of
             None \<Rightarrow> Inl KeyError
           | Some route_type \<Rightarrow>
               (case hd stop_times of (first_stop, first_arrival, first_departure) \<Rightarrow>
                  Inr (StopsTimes_loop route_type trip_id (tl stop_times)
                         first_stop first_departure lfd)))"

section \<open>The frequency strategy: \<^verbatim>\<open>Make_Frequency_Rows\<close>\<close>

text \<open>
  \<^verbatim>\<open>range(start, stop, step)\<close> of Python 2: the list \<open>start, start + step, ...\<close> below
  \<open>stop\<close> (above it for a negative step); a step of 0 raises ValueError.
\<close>

function range_up :: "int \<Rightarrow> int \<Rightarrow> int \<Rightarrow> int list" where
  "range_up i stop step =
     (if 0 < step \<and> i < stop then i # range_up (i + step) stop step else [])"
  by pat_completeness auto
termination
  by (relation "measure (\<lambda>(i, stop, step). nat (stop - i))") auto

declare range_up.simps [simp del]

function range_down :: "int \<Rightarrow> int \<Rightarrow> int \<Rightarrow> int list" where
  "range_down i stop step =
     (if step < 0 \<and> stop < i then i # range_down (i + step) stop step else [])"
  by pat_completeness auto
termination
  by (relation "measure (\<lambda>(i, stop, step). nat (i - stop))") auto

declare range_down.simps [simp del]

definition py_range :: "int \<Rightarrow> int \<Rightarrow> int \<Rightarrow> error + int list" where
  "py_range start stop step =
     (if step = 0 then Inl ValueError
      else if 0 < step then Inr (range_up start stop step)
      else Inr (range_down start stop step))"

text \<open>
  \<^verbatim>\<open>int(round(x, 0))\<close>: Python 2 rounds to the nearest integer, halves away from zero.
  The window bounds are numbers of the store (integers or finite floats), here rationals.
\<close>

definition py_round :: "rat \<Rightarrow> int" where
  "py_round x = (if 0 \<le> x then \<lfloor>x + 1 / 2\<rfloor> else \<lceil>x - 1 / 2\<rceil>)"

text \<open>A window of \<open>frequencies_dict\<close> is \<open>[start_time, end_time, headway_secs]\<close>.\<close>

type_synonym window = "rat \<times> rat \<times> int"
type_synonym frequencies = "string \<rightharpoonup> window list"

text \<open>The loop \<^verbatim>\<open>for window in frequencies_dict[trip_id]\<close> with the loop over the range in it.\<close>

fun Frequency_windows ::
  "string \<Rightarrow> int \<Rightarrow> int \<Rightarrow> string \<Rightarrow> window list \<Rightarrow> error + schedule_row list" where
  "Frequency_windows SourceOIDkey start_time_along_trip end_time_along_trip trip_id [] = Inr []"
| "Frequency_windows SourceOIDkey start_time_along_trip end_time_along_trip trip_id (window # windows) =
     (case window of (start_timeofday, end_timeofday, headway) \<Rightarrow>
        (case py_range (py_round start_timeofday) (py_round end_timeofday) headway of
           Inl e \<Rightarrow> Inl e
         | Inr ticks \<Rightarrow>
             (case Frequency_windows SourceOIDkey start_time_along_trip end_time_along_trip
                     trip_id windows of
                Inl e \<Rightarrow> Inl e
              | Inr rows \<Rightarrow>
                  Inr (map (\<lambda>i. (SourceOIDkey, i + start_time_along_trip,
                                   i + end_time_along_trip, trip_id)) ticks @ rows))))"

text \<open>The loop \<^verbatim>\<open>for st in stop_times[1:]\<close> of \<open>Make_Frequency_Rows\<close>.\<close>

fun Frequency_loop ::
  "pyval \<Rightarrow> string \<Rightarrow> frequencies \<Rightarrow> int \<Rightarrow> stop_time list \<Rightarrow> string \<Rightarrow> int \<Rightarrow> lfdict
     \<Rightarrow> error + (schedule_row list \<times> lfdict)" where
  "Frequency_loop route_type trip_id frequencies_dict first_trip_initial_start_time []
     previous_stop start_time lfd = Inr ([], lfd)"
| "Frequency_loop route_type trip_id frequencies_dict first_trip_initial_start_time (st # sts)
     previous_stop start_time lfd =
     (case st of (stop_id, arrival_time, departure_time) \<Rightarrow>
        let start_stop = previous_stop;
            end_stop = stop_id;
            start_time_along_trip = start_time - first_trip_initial_start_time;
            end_time_along_trip = arrival_time - first_trip_initial_start_time;
            SourceOIDkey = SourceOIDkey_of start_stop end_stop route_type;
            lfd1 = lfd(SourceOIDkey \<mapsto> LTrue)
        in (case frequencies_dict trip_id of
              None \<Rightarrow> Inl KeyError
            | Some windows \<Rightarrow>
                (case Frequency_windows SourceOIDkey start_time_along_trip end_time_along_trip
                        trip_id windows of
                   Inl e \<Rightarrow> Inl e
                 | Inr rows \<Rightarrow>
                     (case Frequency_loop route_type trip_id frequencies_dict
                             first_trip_initial_start_time sts stop_id departure_time lfd1 of
                        Inl e \<Rightarrow> Inl e
                      | Inr rest \<Rightarrow> Inr (rows @ fst rest, snd rest)))))"

definition Make_Frequency_Rows ::
  "trip_routetype \<Rightarrow> frequencies \<Rightarrow> string \<Rightarrow> stop_time list \<Rightarrow> lfdict
     \<Rightarrow> error + (schedule_row list \<times> lfdict)" where
  "Make_Frequency_Rows trip_routetype_dict frequencies_dict trip_id stop_times lfd =
     (if length stop_times < 2 then Inr ([], lfd)
      else case map_of trip_routetype_dict trip_id of
             None \<Rightarrow> Inl KeyError
           | Some route_type \<Rightarrow>
               (case hd stop_times of (first_stop, first_arrival, first_departure) \<Rightarrow>
                  Frequency_loop route_type trip_id frequencies_dict first_departure
                    (tl stop_times) first_stop first_departure lfd))"

section \<open>One trip, and all trips\<close>

text \<open>
  The text of the query on \<open>stop_times\<close> for one trip: the \<open>trip_id\<close> is written into the
  text between two apostrophes, as it is.
\<close>

definition stoptimefetch :: "string \<Rightarrow> string" where
  "stoptimefetch trip_id =
     [CHR 0x0A] @ ''        SELECT stop_id, arrival_time, departure_time''
     @ [CHR 0x0A] @ ''        FROM stop_times''
     @ [CHR 0x0A] @ ''        WHERE trip_id = '' @ [CHR 0x27] @ trip_id @ [CHR 0x27]
     @ [CHR 0x0A] @ ''        ORDER BY stop_sequence''
     @ [CHR 0x0A] @ ''        ;''"

text \<open>
  \<open>c_execute\<close> is the store: what \<^verbatim>\<open>c.execute(query)\<close> followed by \<^verbatim>\<open>c.fetchall()\<close> gives
  for the text of a query, the rows or the exception raised (for a text that is no query,
  as a \<open>trip_id\<close> with an apostrophe can make it).
\<close>

definition Make_Rows_For_Trip ::
  "(string \<Rightarrow> error + stop_time list) \<Rightarrow> trip_routetype \<Rightarrow> frequencies \<Rightarrow> string \<Rightarrow> lfdict
     \<Rightarrow> error + (schedule_row list \<times> lfdict)" where
  "Make_Rows_For_Trip c_execute trip_routetype_dict frequencies_dict trip_id lfd =
     (case c_execute (stoptimefetch trip_id) of
        Inl e \<Rightarrow> Inl e
      | Inr stop_time_data \<Rightarrow>
          if frequencies_dict trip_id \<noteq> None
          then Make_Frequency_Rows trip_routetype_dict frequencies_dict trip_id stop_time_data lfd
          else Make_StopsTimes_Rows trip_routetype_dict trip_id stop_time_data lfd)"

text \<open>
  \<^verbatim>\<open>itertools.chain.from_iterable(itertools.imap(Make_Rows_For_Trip, keys))\<close>, consumed by
  \<open>Insert_Schedules\<close>: the rows of the trips one after the other; an exception ends it.
\<close>

fun chain_rows ::
  "(string \<Rightarrow> error + stop_time list) \<Rightarrow> trip_routetype \<Rightarrow> frequencies \<Rightarrow> string list \<Rightarrow> lfdict
     \<Rightarrow> error + (schedule_row list \<times> lfdict)" where
  "chain_rows c_execute trip_routetype_dict frequencies_dict [] lfd = Inr ([], lfd)"
| "chain_rows c_execute trip_routetype_dict frequencies_dict (trip_id # trip_ids) lfd =
     (case Make_Rows_For_Trip c_execute trip_routetype_dict frequencies_dict trip_id lfd of
        Inl e \<Rightarrow> Inl e
      | Inr res \<Rightarrow>
          (case chain_rows c_execute trip_routetype_dict frequencies_dict trip_ids (snd res) of
             Inl e \<Rightarrow> Inl e
           | Inr rest \<Rightarrow> Inr (fst res @ fst rest, snd rest)))"

section \<open>The reference tables\<close>

text \<open>\<open>RouteDict\<close>: \<^verbatim>\<open>for route in c: RouteDict[route[0]] = route[1]\<close>.\<close>

fun routes_loop :: "(string \<times> pyval) list \<Rightarrow> (string \<rightharpoonup> pyval) \<Rightarrow> (string \<rightharpoonup> pyval)" where
  "routes_loop [] RouteDict = RouteDict"
| "routes_loop (route # routes) RouteDict = routes_loop routes (RouteDict(fst route \<mapsto> snd route))"

text \<open>
  The query \<^verbatim>\<open>SELECT trip_id, count(*) from trips group by trip_id having count(*) > 1\<close>
  on the rows \<open>(trip_id, route_id)\<close> of \<open>trips\<close>: one row for every \<open>trip_id\<close> that occurs
  more than once, with the number of its occurrences. (The store chooses the order of the
  groups; here it is that of \<open>remdups\<close>.)
\<close>

definition tripDuplicateFetch :: "(string \<times> string) list \<Rightarrow> (string \<times> int) list" where
  "tripDuplicateFetch trips =
     (let ids = map fst trips
      in filter (\<lambda>tripdup. 1 < snd tripdup)
           (map (\<lambda>trip_id. (trip_id, int (count_list ids trip_id))) (remdups ids)))"

definition tripdup_message :: "string \<times> int \<Rightarrow> string" where
  "tripdup_message tripdup =
     ''There are '' @ str_int (snd tripdup) @ '' instances of the trip_id value ''
       @ [CHR 0x27] @ fst tripdup @ [CHR 0x27] @ ''.''"

definition unknown_route_message :: "string \<Rightarrow> string \<Rightarrow> string" where
  "unknown_route_message trip_id route_id =
     ''Trip_id '' @ trip_id @ '' in trips.txt has a route_id value, '' @ route_id
       @ '', which does not appear in your routes.txt file.  This trip can still be used for analysis, but it might be an indication of a problem with your GTFS dataset.''"

text \<open>\<open>trip_routetype_dict\<close>: a trip of an unknown route gets the type 100 and a warning.\<close>

fun trips_loop ::
  "(string \<rightharpoonup> pyval) \<Rightarrow> (string \<times> string) list \<Rightarrow> trip_routetype \<Rightarrow> log_entry list
     \<Rightarrow> trip_routetype \<times> log_entry list" where
  "trips_loop RouteDict [] trip_routetype_dict msgs = (trip_routetype_dict, msgs)"
| "trips_loop RouteDict (trip # trips) trip_routetype_dict msgs =
     (case RouteDict (snd trip) of
        Some route_type \<Rightarrow>
          trips_loop RouteDict trips (AList.update (fst trip) route_type trip_routetype_dict) msgs
      | None \<Rightarrow>
          trips_loop RouteDict trips (AList.update (fst trip) (PInt 100) trip_routetype_dict)
            (msgs @ [AddWarning (unknown_route_message (fst trip) (snd trip))]))"

definition zero_headway_message :: "string \<Rightarrow> string" where
  "zero_headway_message trip_id =
     ''Trip_id '' @ trip_id @ '' in your frequencies.txt file has a headway of 0 seconds. This is invalid, so trips with this id will not be included in your network.''"

text \<open>
  \<open>frequencies_dict\<close>, from the rows \<open>(trip_id, start_time, end_time, headway_secs)\<close> of
  \<open>frequencies\<close>: a row with headway 0 is skipped with a warning, every other row is
  appended to the windows of its trip.
\<close>

type_synonym freq_row = "string \<times> rat \<times> rat \<times> int"

fun frequencies_loop ::
  "freq_row list \<Rightarrow> frequencies \<Rightarrow> log_entry list \<Rightarrow> frequencies \<times> log_entry list" where
  "frequencies_loop [] frequencies_dict msgs = (frequencies_dict, msgs)"
| "frequencies_loop (freq # freqs) frequencies_dict msgs =
     (case freq of (trip_id, start_time, end_time, headway_secs) \<Rightarrow>
        if headway_secs = 0
        then frequencies_loop freqs frequencies_dict (msgs @ [AddWarning (zero_headway_message trip_id)])
        else let trip_data = (start_time, end_time, headway_secs)
             in frequencies_loop freqs
                  (frequencies_dict(trip_id \<mapsto>
                     (case frequencies_dict trip_id of None \<Rightarrow> [] | Some ws \<Rightarrow> ws) @ [trip_data]))
                  msgs)"

section \<open>The script up to the insertion of the schedules\<close>

text \<open>
  What the script gets from the modules it calls: \<open>GTFSErrors\<close> is what
  \<^verbatim>\<open>sqlize_csv.handle_agency\<close> returns for each GTFS directory, in order,
  \<open>overlapwarning\<close> what \<^verbatim>\<open>sqlize_csv.check_nonoverlapping_dateranges\<close> returns (empty
  for none); \<open>routes\<close>, \<open>trips\<close> and \<open>frequencies\<close> are the tables of the store after
  loading, and \<open>c_execute\<close> is the store answering the queries on \<open>stop_times\<close>.
\<close>

record gtfs =
  GTFSErrors :: "string list list"
  overlapwarning :: string
  routes :: "(string \<times> pyval) list"
  trips :: "(string \<times> string) list"
  frequencies :: "freq_row list"
  c_execute :: "string \<Rightarrow> error + stop_time list"

text \<open>
  The result is the log of warnings and errors and either the exception that ended the
  script or the rows inserted into \<open>schedules\<close> with \<open>linefeature_dict\<close>. The handlers at
  the end of the script add the last error message. The steps between that only call
  \<open>arcpy\<close> (the feature class of the stops) and the messages of \<^verbatim>\<open>arcpy.AddMessage\<close> are
  left out.
\<close>

definition failed_message :: string where
  "failed_message = ''Failed to generate transit lines and stops.''"

text \<open>The warning on overlapping date ranges, if there is one.\<close>

definition overlap_messages :: "gtfs \<Rightarrow> log_entry list" where
  "overlap_messages db =
     (if overlapwarning db \<noteq> [] then [AddWarning (overlapwarning db)] else [])"

text \<open>\<open>trip_routetype_dict\<close> and \<open>frequencies_dict\<close> as the script builds them, with the log.\<close>

definition make_trip_routetype_dict :: "gtfs \<Rightarrow> trip_routetype \<times> log_entry list" where
  "make_trip_routetype_dict db =
     trips_loop (routes_loop (routes db) Map.empty) (trips db) [] (overlap_messages db)"

definition make_frequencies_dict :: "gtfs \<Rightarrow> frequencies \<times> log_entry list" where
  "make_frequencies_dict db =
     frequencies_loop (frequencies db) Map.empty (snd (make_trip_routetype_dict db))"

definition GenerateStopPairs :: "gtfs \<Rightarrow> log_entry list \<times> (error + (schedule_row list \<times> lfdict))" where
  "GenerateStopPairs db =
     (case find (\<lambda>errors. errors \<noteq> []) (GTFSErrors db) of
        Some errors \<Rightarrow> (map AddError errors @ [AddError failed_message], Inl CustomError)
      | None \<Rightarrow>
          let tripdupslist = tripDuplicateFetch (trips db)
          in if tripdupslist \<noteq> []
             then (overlap_messages db
                     @ [AddError ''Your GTFS trips table is invalid.  It contains multiple trips with the same trip_id.'']
                     @ map (\<lambda>tripdup. AddError (tripdup_message tripdup)) tripdupslist
                     @ [AddError failed_message],
                   Inl CustomError)
             else
               let trip_routetype_dict = fst (make_trip_routetype_dict db);
                   fr = make_frequencies_dict db
               in (case chain_rows (c_execute db) trip_routetype_dict (fst fr)
                          (map fst trip_routetype_dict) Map.empty of
                     Inl e \<Rightarrow> (snd fr @ [AddError failed_message], Inl e)
                   | Inr res \<Rightarrow> (snd fr, Inr res)))"

section \<open>Line features: splitting the key, the route type\<close>

text \<open>\<^verbatim>\<open>key.split(" , ")\<close>: the pieces between the occurrences of the separator, from the left.\<close>

function split_delim :: "string \<Rightarrow> string \<Rightarrow> string list" where
  "split_delim acc s =
     (if s = [] then [rev acc]
      else if take 3 s = '' , '' then rev acc # split_delim [] (drop 3 s)
      else split_delim (hd s # acc) (tl s))"
  by pat_completeness auto
termination
  by (relation "measure (\<lambda>(acc, s). length s)") auto

declare split_delim.simps [simp del]

definition split_key :: "string \<Rightarrow> string list" where
  "split_key s = split_delim [] s"

text \<open>
  \<^verbatim>\<open>int(s)\<close> on text: white space around it is dropped, then an optional sign and one or
  more decimal digits; anything else raises ValueError (\<open>None\<close> here).
\<close>

definition is_space :: "char \<Rightarrow> bool" where
  "is_space c = (c \<in> set [CHR '' '', CHR 0x09, CHR 0x0A, CHR 0x0B, CHR 0x0C, CHR 0x0D])"

definition strip :: "string \<Rightarrow> string" where
  "strip s = rev (dropWhile is_space (rev (dropWhile is_space s)))"

definition digit_val :: "char \<Rightarrow> nat option" where
  "digit_val c =
     map_of [(CHR ''0'', 0), (CHR ''1'', 1), (CHR ''2'', 2), (CHR ''3'', 3), (CHR ''4'', 4),
             (CHR ''5'', 5), (CHR ''6'', 6), (CHR ''7'', 7), (CHR ''8'', 8), (CHR ''9'', 9)] c"

fun digits_value :: "nat \<Rightarrow> string \<Rightarrow> nat option" where
  "digits_value acc [] = Some acc"
| "digits_value acc (c # cs) =
     (case digit_val c of None \<Rightarrow> None | Some d \<Rightarrow> digits_value (10 * acc + d) cs)"

definition py_int :: "string \<Rightarrow> int option" where
  "py_int s =
     (case strip s of
        [] \<Rightarrow> None
      | c # cs \<Rightarrow>
          if c = CHR ''-'' then (if cs = [] then None else map_option (\<lambda>n. - int n) (digits_value 0 cs))
          else if c = CHR ''+'' then (if cs = [] then None else map_option int (digits_value 0 cs))
          else map_option int (digits_value 0 (c # cs)))"

definition route_type_dict :: "int \<rightharpoonup> string" where
  "route_type_dict =
     map_of [(0, ''Tram, Streetcar, Light rail''), (1, ''Subway, Metro''), (2, ''Rail''),
             (3, ''Bus''), (4, ''Ferry''), (5, ''Cable car''),
             (6, ''Gondola, Suspended cable car''), (7, ''Funicular'')]"

text \<open>
  One row \<open>(pair_id, OID)\<close> of the update cursor on the lines: the fields \<open>route_type\<close> and
  \<open>route_type_text\<close> written to the line, and \<open>linefeature_dict\<close> with the line's ObjectID.
  \<^verbatim>\<open>int()\<close> gives a \<open>long\<close> beyond \<open>sys.maxint\<close>, which is not an instance of \<open>int\<close>;
  \<open>maxint\<close> is a parameter.
\<close>

definition other_type_text :: "string \<Rightarrow> string" where
  "other_type_text s = ''Other / Type not specified ('' @ s @ '')''"

definition cur4_row ::
  "int \<Rightarrow> string \<times> int \<Rightarrow> lfdict \<Rightarrow> error + ((int option \<times> string) \<times> lfdict)" where
  "cur4_row maxint row lfd =
     (let pair_id_list = split_key (fst row)
      in if length pair_id_list < 3 then Inl IndexError
         else
           let lfd1 = lfd(fst row \<mapsto> LOid (snd row))
           in (case py_int (pair_id_list ! 2) of
                 None \<Rightarrow> Inr ((None, other_type_text (pair_id_list ! 2)), lfd1)
               | Some route_type \<Rightarrow>
                   let route_type_text =
                         (case route_type_dict route_type of
                            Some t \<Rightarrow> t
                          | None \<Rightarrow> other_type_text (str_int route_type))
                   in Inr ((if - maxint - 1 \<le> route_type \<and> route_type \<le> maxint
                            then Some route_type else None, route_type_text), lfd1)))"

text \<open>The update cursor over all the lines, in their order.\<close>

fun cur4_loop ::
  "int \<Rightarrow> (string \<times> int) list \<Rightarrow> lfdict \<Rightarrow> error + ((int option \<times> string) list \<times> lfdict)" where
  "cur4_loop maxint [] lfd = Inr ([], lfd)"
| "cur4_loop maxint (row # rows) lfd =
     (case cur4_row maxint row lfd of
        Inl e \<Rightarrow> Inl e
      | Inr res \<Rightarrow>
          (case cur4_loop maxint rows (snd res) of
             Inl e \<Rightarrow> Inl e
           | Inr rest \<Rightarrow> Inr (fst res # fst rest, snd rest)))"

text \<open>\<open>retrieve_linefeatures_info\<close>: the row \<open>(SourceOID, from_stop, to_stop, route_type)\<close>.\<close>

definition retrieve_linefeatures_info ::
  "lfdict \<Rightarrow> string \<Rightarrow> error + (lfval \<times> string \<times> string \<times> pyval)" where
  "retrieve_linefeatures_info lfd in_key =
     (case lfd in_key of
        None \<Rightarrow> Inl KeyError
      | Some SourceOID \<Rightarrow>
          let pair_id_list = split_key in_key
          in if length pair_id_list < 3 then Inl IndexError
             else
               let from_stop = pair_id_list ! 0;
                   to_stop = pair_id_list ! 1;
                   route_type = (case py_int (pair_id_list ! 2) of
                                   Some n \<Rightarrow> PInt n
                                 | None \<Rightarrow> PStr ''NULL'')
               in Inr (SourceOID, from_stop, to_stop, route_type))"

section \<open>The ObjectIDs in the schedules table\<close>

text \<open>
  A row of \<open>schedules\<close> in the store: the inserted columns and the column \<open>SourceOID\<close>,
  NULL (\<open>None\<close>) until the update.
\<close>

type_synonym schedules_row = "schedule_row \<times> int option"

definition Insert_Schedules :: "schedule_row list \<Rightarrow> schedules_row list" where
  "Insert_Schedules rows = map (\<lambda>row. (row, None)) rows"

text \<open>The store writes \<open>True\<close> as the integer 1.\<close>

definition sql_int :: "lfval \<Rightarrow> int" where
  "sql_int v = (case v of LTrue \<Rightarrow> 1 | LOid n \<Rightarrow> n)"

text \<open>\<^verbatim>\<open>lambda v: linefeature_dict[v] if v in linefeature_dict else -1\<close>\<close>

definition getSourceOID :: "lfdict \<Rightarrow> string \<Rightarrow> int" where
  "getSourceOID lfd v = (case lfd v of Some x \<Rightarrow> sql_int x | None \<Rightarrow> - 1)"

text \<open>\<^verbatim>\<open>UPDATE schedules SET SourceOID = getSourceOID(SourceOIDKey)\<close>\<close>

definition update_schedules :: "lfdict \<Rightarrow> schedules_row list \<Rightarrow> schedules_row list" where
  "update_schedules lfd table = map (\<lambda>r. (fst r, Some (getSourceOID lfd (fst (fst r))))) table"

section \<open>The rows of a frequency trip, as the specification words them\<close>

text \<open>
  The ticks of a window: the rounded start, then steps of one headway, below the rounded
  end, counted with the ceiling of the quotient.
\<close>

definition spec_ticks :: "window \<Rightarrow> int list" where
  "spec_ticks w =
     (case w of (start_timeofday, end_timeofday, headway) \<Rightarrow>
        map (\<lambda>k. py_round start_timeofday + int k * headway)
          [0..<nat \<lceil>rat_of_int (py_round end_timeofday - py_round start_timeofday)
                      / rat_of_int headway\<rceil>])"

text \<open>The rows of one segment (a pair of consecutive visits): all windows, all ticks.\<close>

definition spec_segment_rows ::
  "pyval \<Rightarrow> string \<Rightarrow> window list \<Rightarrow> int \<Rightarrow> stop_time \<times> stop_time \<Rightarrow> schedule_row list" where
  "spec_segment_rows route_type trip_id windows first_departure seg =
     (case seg of ((prev_stop, prev_arrival, prev_departure), (stop_id, arrival, departure)) \<Rightarrow>
        concat (map (\<lambda>w. map (\<lambda>i. (SourceOIDkey_of prev_stop stop_id route_type,
                                     i + (prev_departure - first_departure),
                                     i + (arrival - first_departure), trip_id))
                            (spec_ticks w)) windows))"

text \<open>
  \<^verbatim>\<open>del linefeature_dict[key]\<close> for the keys of missing stops and of lines of length 0.
\<close>

fun del_keys :: "string list \<Rightarrow> lfdict \<Rightarrow> error + lfdict" where
  "del_keys [] lfd = Inr lfd"
| "del_keys (key # keys) lfd =
     (case lfd key of None \<Rightarrow> Inl KeyError | Some v \<Rightarrow> del_keys keys (lfd(key := None)))"

text \<open>
  The windows of a trip as the specification words them: its frequency records in order,
  those with headway 0 left out.
\<close>

definition spec_windows :: "freq_row list \<Rightarrow> string \<Rightarrow> window list" where
  "spec_windows freqs trip_id =
     map snd (filter (\<lambda>freq. fst freq = trip_id \<and> snd (snd (snd freq)) \<noteq> 0) freqs)"

text \<open>A window with at least one tick: the range from its rounded start is not empty.\<close>

definition window_has_tick :: "window \<Rightarrow> bool" where
  "window_has_tick w =
     (case w of (start_timeofday, end_timeofday, headway) \<Rightarrow>
        (0 < headway \<and> py_round start_timeofday < py_round end_timeofday) \<or>
        (headway < 0 \<and> py_round end_timeofday < py_round start_timeofday))"

text \<open>The rows of a static trip: one for each pair of consecutive visits.\<close>

definition spec_static_rows :: "pyval \<Rightarrow> string \<Rightarrow> stop_time list \<Rightarrow> schedule_row list" where
  "spec_static_rows route_type trip_id visits =
     map (\<lambda>seg. case seg of
                  ((prev_stop, prev_arrival, prev_departure), (stop_id, arrival, departure)) \<Rightarrow>
                    (SourceOIDkey_of prev_stop stop_id route_type, prev_departure, arrival,
                     trip_id))
       (zip visits (tl visits))"

text \<open>The rows of a frequency trip: the rows of its segments, in order.\<close>

definition spec_frequency_rows ::
  "pyval \<Rightarrow> string \<Rightarrow> window list \<Rightarrow> stop_time list \<Rightarrow> schedule_row list" where
  "spec_frequency_rows route_type trip_id windows visits =
     concat (map (spec_segment_rows route_type trip_id windows (snd (snd (hd visits))))
               (zip visits (tl visits)))"

text \<open>
  The rows of one trip of the input: those of a frequency trip when it has a window of
  headway other than 0, built from these windows alone, and those of a static trip otherwise.
\<close>

definition spec_trip_rows :: "gtfs \<Rightarrow> string \<Rightarrow> schedule_row list" where
  "spec_trip_rows db trip_id =
     (case (c_execute db (stoptimefetch trip_id),
            map_of (fst (make_trip_routetype_dict db)) trip_id) of
        (Inr visits, Some route_type) \<Rightarrow>
          if spec_windows (frequencies db) trip_id = []
          then spec_static_rows route_type trip_id visits
          else spec_frequency_rows route_type trip_id (spec_windows (frequencies db) trip_id) visits
      | _ \<Rightarrow> [])"

text \<open>
  The edges of the input: for every trip, the tuples (from-stop, to-stop, mode) of its pairs
  of consecutive visits.
\<close>

definition spec_trip_edges :: "gtfs \<Rightarrow> string \<Rightarrow> (string \<times> string \<times> pyval) list" where
  "spec_trip_edges db trip_id =
     (case (c_execute db (stoptimefetch trip_id),
            map_of (fst (make_trip_routetype_dict db)) trip_id) of
        (Inr visits, Some route_type) \<Rightarrow>
          map (\<lambda>seg. (fst (fst seg), fst (snd seg), route_type)) (zip visits (tl visits))
      | _ \<Rightarrow> [])"

definition spec_edges :: "gtfs \<Rightarrow> (string \<times> string \<times> pyval) list" where
  "spec_edges db = concat (map (spec_trip_edges db) (map fst (fst (make_trip_routetype_dict db))))"

definition edge_key :: "string \<times> string \<times> pyval \<Rightarrow> string" where
  "edge_key e = SourceOIDkey_of (fst e) (fst (snd e)) (snd (snd e))"

section \<open>The static strategy\<close>

lemma length_StopsTimes_loop:
  "length (fst (StopsTimes_loop rt tid sts prev start lfd)) = length sts"
  by (induction sts arbitrary: prev start lfd) (auto split: prod.splits simp: Let_def)

lemma nth_StopsTimes_loop:
  "i < length sts \<Longrightarrow>
   fst (StopsTimes_loop rt tid sts prev start lfd) ! i =
     (SourceOIDkey_of (fst (((prev, a, start) # sts) ! i)) (fst (sts ! i)) rt,
      snd (snd (((prev, a, start) # sts) ! i)), fst (snd (sts ! i)), tid)"
proof (induction sts arbitrary: prev start lfd i a)
  case Nil
  then show ?case by simp
next
  case (Cons st sts)
  obtain stop_id arrival departure where st: "st = (stop_id, arrival, departure)"
    by (cases st) auto
  show ?case
  proof (cases i)
    case 0
    then show ?thesis by (simp add: st Let_def)
  next
    case (Suc j)
    with Cons.prems have "j < length sts" by simp
    from Cons.IH [OF this, of stop_id departure _ arrival] Suc show ?thesis
      by (simp add: st Let_def)
  qed
qed

lemma Make_StopsTimes_Rows_rows:
  assumes "2 \<le> length visits"
    and "map_of trip_routetype_dict trip_id = Some route_type"
  shows "\<exists>rows lfd'.
           Make_StopsTimes_Rows trip_routetype_dict trip_id visits lfd = Inr (rows, lfd') \<and>
           length rows = length visits - 1 \<and>
           (\<forall>i < length visits - 1.
              rows ! i =
                (SourceOIDkey_of (fst (visits ! i)) (fst (visits ! Suc i)) route_type,
                 snd (snd (visits ! i)), fst (snd (visits ! Suc i)), trip_id))"
proof -
  from assms(1) obtain v vs where vs: "visits = v # vs" and len: "1 \<le> length vs"
    by (cases visits) auto
  obtain s0 a0 d0 where v: "v = (s0, a0, d0)" by (cases v) auto
  let ?res = "StopsTimes_loop route_type trip_id vs s0 d0 lfd"
  have run: "Make_StopsTimes_Rows trip_routetype_dict trip_id visits lfd = Inr (fst ?res, snd ?res)"
    using assms(2) len
    by (cases vs) (simp_all add: Make_StopsTimes_Rows_def vs v)
  have n: "length (fst ?res) = length visits - 1"
    by (simp add: length_StopsTimes_loop vs)
  have rows: "\<forall>i < length visits - 1.
      fst ?res ! i = (SourceOIDkey_of (fst (visits ! i)) (fst (visits ! Suc i)) route_type,
                      snd (snd (visits ! i)), fst (snd (visits ! Suc i)), trip_id)"
    using nth_StopsTimes_loop [of _ vs route_type trip_id s0 d0 lfd a0]
    by (simp add: vs v)
  from run n rows show ?thesis by blast
qed

lemma StopsTimes_loop_rows:
  "fst (StopsTimes_loop rt tid sts prev start lfd) = spec_static_rows rt tid ((prev, a, start) # sts)"
proof (induction sts arbitrary: prev start lfd a)
  case Nil
  then show ?case by (simp add: spec_static_rows_def)
next
  case (Cons st sts)
  obtain stop_id arrival departure where st: "st = (stop_id, arrival, departure)"
    by (cases st) auto
  from Cons.IH [of stop_id departure _ arrival] show ?case
    by (simp add: st Let_def spec_static_rows_def)
qed

lemma Make_StopsTimes_Rows_spec:
  assumes "map_of trip_routetype_dict trip_id = Some route_type"
  shows "\<exists>lfd'. Make_StopsTimes_Rows trip_routetype_dict trip_id visits lfd =
           Inr (spec_static_rows route_type trip_id visits, lfd')"
proof (cases visits)
  case Nil
  then show ?thesis by (simp add: Make_StopsTimes_Rows_def spec_static_rows_def)
next
  case (Cons v vs)
  obtain s0 a0 d0 where v: "v = (s0, a0, d0)" by (cases v) auto
  show ?thesis
  proof (cases vs)
    case Nil
    with Cons show ?thesis by (simp add: Make_StopsTimes_Rows_def spec_static_rows_def)
  next
    case (Cons w ws)
    have "Make_StopsTimes_Rows trip_routetype_dict trip_id visits lfd =
        Inr (fst (StopsTimes_loop route_type trip_id vs s0 d0 lfd),
             snd (StopsTimes_loop route_type trip_id vs s0 d0 lfd))"
      using assms Cons \<open>visits = v # vs\<close> by (simp add: Make_StopsTimes_Rows_def v)
    then show ?thesis
      by (simp add: StopsTimes_loop_rows [of _ _ _ _ _ _ a0] \<open>visits = v # vs\<close> v)
  qed
qed

text \<open>
  Claim C1. A trip without an entry in \<open>frequencies_dict\<close> whose query gives at least two
  stop visits returns normally with one row less than it has visits; row \<open>i\<close> carries the key
  of the stops of visits \<open>i\<close> and \<open>i + 1\<close>, starts at the departure time of visit \<open>i\<close> (the
  running \<open>start_time\<close>) and ends at the arrival time of visit \<open>i + 1\<close>.
\<close>

theorem static_rows:
  assumes "frequencies_dict trip_id = None"
    and "c (stoptimefetch trip_id) = Inr visits"
    and "2 \<le> length visits"
    and "map_of trip_routetype_dict trip_id = Some route_type"
  shows "\<exists>rows lfd'.
           Make_Rows_For_Trip c trip_routetype_dict frequencies_dict trip_id lfd
             = Inr (rows, lfd') \<and>
           length rows = length visits - 1 \<and>
           (\<forall>i < length visits - 1.
              rows ! i =
                (SourceOIDkey_of (fst (visits ! i)) (fst (visits ! Suc i)) route_type,
                 snd (snd (visits ! i)),
                 fst (snd (visits ! Suc i)),
                 trip_id))"
proof -
  have "Make_Rows_For_Trip c trip_routetype_dict frequencies_dict trip_id lfd
          = Make_StopsTimes_Rows trip_routetype_dict trip_id visits lfd"
    using assms(1,2) by (simp add: Make_Rows_For_Trip_def)
  with Make_StopsTimes_Rows_rows [OF assms(3,4), of lfd] show ?thesis
    by simp
qed

lemma str_int_3: "str_int 3 = ''3''"
  by (simp add: str_int_def str_nat.simps digit_char_def)

theorem static_rows_witness:
  "\<exists>rows lfd'.
     Make_Rows_For_Trip (\<lambda>q. Inr [(''A'', 0, 0), (''B'', 5, 10), (''C'', 15, 15)])
       [(''T1'', PInt 3)] Map.empty ''T1'' Map.empty = Inr (rows, lfd') \<and>
     length rows = 2 \<and>
     rows ! 0 = (''A , B , 3'', 0, 5, ''T1'') \<and>
     rows ! 1 = (''B , C , 3'', 10, 15, ''T1'')"
proof -
  let ?visits = "[(''A'', 0::int, 0::int), (''B'', 5, 10), (''C'', 15, 15)]"
  have q: "(\<lambda>q. Inr ?visits :: error + stop_time list) (stoptimefetch ''T1'') = Inr ?visits"
    by simp
  from static_rows [of Map.empty "''T1''" "\<lambda>q. Inr ?visits" ?visits
      "[(''T1'', PInt 3)]" "PInt 3" Map.empty, OF _ q]
  obtain rows lfd' where
    run: "Make_Rows_For_Trip (\<lambda>q. Inr ?visits) [(''T1'', PInt 3)] Map.empty ''T1'' Map.empty
            = Inr (rows, lfd')"
    and n: "length rows = 2"
    and at: "\<forall>i<2. rows ! i =
               (SourceOIDkey_of (fst (?visits ! i)) (fst (?visits ! Suc i)) (PInt 3),
                snd (snd (?visits ! i)), fst (snd (?visits ! Suc i)), ''T1'')"
    by auto
  from at have "rows ! 0 = (''A , B , 3'', 0, 5, ''T1'')"
    by (simp add: SourceOIDkey_of_def fmt_s_def str_int_3)
  moreover from at have "rows ! 1 = (''B , C , 3'', 10, 15, ''T1'')"
    by (simp add: SourceOIDkey_of_def fmt_s_def str_int_3)
  ultimately show ?thesis using run n by blast
qed

section \<open>The frequency strategy\<close>

lemma map_upt_Suc_shift: "map f [0..<Suc n] = f 0 # map (\<lambda>k. f (Suc k)) [0..<n]"
  by (simp add: map_upt_Suc del: upt_Suc)

lemma range_up_eq:
  "0 < h \<Longrightarrow> range_up a b h = map (\<lambda>k. a + int k * h) [0..<nat (- ((a - b) div h))]"
proof (induction a b h rule: range_up.induct)
  case (1 i stop step)
  show ?case
  proof (cases "i < stop")
    case False
    with 1(2) have "0 \<le> (i - stop) div step"
      by (simp add: pos_imp_zdiv_nonneg_iff)
    with False 1(2) show ?thesis by (simp add: range_up.simps [of i stop step])
  next
    case True
    have "i + step - stop = (i - stop) + step" by simp
    then have shift: "(i + step - stop) div step = (i - stop) div step + 1"
      using 1(2) by (simp only: div_add_self2)
    have neg: "(i - stop) div step < 0"
      using True 1(2) by (simp add: div_neg_pos_less0)
    then obtain n where n: "nat (- ((i - stop) div step)) = Suc n"
      by (cases "nat (- ((i - stop) div step))") auto
    have n': "nat (- ((i + step - stop) div step)) = n"
      using n shift by linarith
    have "range_up i stop step = i # range_up (i + step) stop step"
      using True 1(2) by (simp add: range_up.simps [of i stop step])
    also have "range_up (i + step) stop step = map (\<lambda>k. i + step + int k * step) [0..<n]"
      using 1(1) True 1(2) n' by simp
    also have "i # map (\<lambda>k. i + step + int k * step) [0..<n]
                 = map (\<lambda>k. i + int k * step) [0..<Suc n]"
      by (simp add: map_upt_Suc_shift algebra_simps del: upt_Suc)
    finally show ?thesis by (simp only: n)
  qed
qed

lemma range_down_eq:
  "h < 0 \<Longrightarrow> range_down a b h = map (\<lambda>k. a + int k * h) [0..<nat (- ((a - b) div h))]"
proof (induction a b h rule: range_down.induct)
  case (1 i stop step)
  show ?case
  proof (cases "stop < i")
    case False
    with 1(2) have "0 \<le> (i - stop) div step"
      by (simp add: neg_imp_zdiv_nonneg_iff)
    with False 1(2) show ?thesis by (simp add: range_down.simps [of i stop step])
  next
    case True
    have "i + step - stop = (i - stop) + step" by simp
    then have shift: "(i + step - stop) div step = (i - stop) div step + 1"
      using 1(2) by (simp only: div_add_self2)
    have neg: "(i - stop) div step < 0"
      using True 1(2) by (simp add: neg_imp_zdiv_neg_iff)
    then obtain n where n: "nat (- ((i - stop) div step)) = Suc n"
      by (cases "nat (- ((i - stop) div step))") auto
    have n': "nat (- ((i + step - stop) div step)) = n"
      using n shift by linarith
    have "range_down i stop step = i # range_down (i + step) stop step"
      using True 1(2) by (simp add: range_down.simps [of i stop step])
    also have "range_down (i + step) stop step = map (\<lambda>k. i + step + int k * step) [0..<n]"
      using 1(1) True 1(2) n' by simp
    also have "i # map (\<lambda>k. i + step + int k * step) [0..<n]
                 = map (\<lambda>k. i + int k * step) [0..<Suc n]"
      by (simp add: map_upt_Suc_shift algebra_simps del: upt_Suc)
    finally show ?thesis by (simp only: n)
  qed
qed

lemma py_range_nonzero:
  assumes "h \<noteq> 0"
  shows "py_range a b h =
           Inr (map (\<lambda>k. a + int k * h) [0..<nat \<lceil>rat_of_int (b - a) / rat_of_int h\<rceil>])"
proof -
  have c: "\<lceil>rat_of_int (b - a) / rat_of_int h\<rceil> = - ((a - b) div h)"
    by (simp add: ceiling_divide_eq_div del: of_int_diff)
  show ?thesis
  proof (cases "0 < h")
    case True
    then show ?thesis by (simp add: py_range_def range_up_eq c del: of_int_diff)
  next
    case False
    with assms have "h < 0" by simp
    then show ?thesis by (simp add: py_range_def range_down_eq c del: of_int_diff)
  qed
qed

lemma Frequency_windows_nonzero:
  "\<forall>w \<in> set windows. snd (snd w) \<noteq> 0 \<Longrightarrow>
   Frequency_windows key s e tid windows =
     Inr (concat (map (\<lambda>w. map (\<lambda>i. (key, i + s, i + e, tid)) (spec_ticks w)) windows))"
proof (induction windows)
  case Nil
  then show ?case by simp
next
  case (Cons w ws)
  obtain a b h where w: "w = (a, b, h)" by (cases w) auto
  with Cons.prems have h: "h \<noteq> 0" by simp
  from Cons show ?case
    by (simp add: w py_range_nonzero [OF h] spec_ticks_def)
qed

lemma Frequency_loop_nonzero:
  assumes "frequencies_dict trip_id = Some windows"
    and "\<forall>w \<in> set windows. snd (snd w) \<noteq> 0"
  shows "\<exists>lfd'. Frequency_loop rt trip_id frequencies_dict first sts prev start lfd =
           Inr (concat (map (spec_segment_rows rt trip_id windows first)
                          (zip ((prev, a, start) # sts) sts)), lfd')"
proof (induction sts arbitrary: prev start lfd a)
  case Nil
  then show ?case by simp
next
  case (Cons st sts)
  obtain stop_id arrival departure where st: "st = (stop_id, arrival, departure)"
    by (cases st) auto
  from Cons.IH [of stop_id departure "lfd(SourceOIDkey_of prev stop_id rt \<mapsto> LTrue)" arrival]
  obtain lfd' where
    "Frequency_loop rt trip_id frequencies_dict first sts stop_id departure
       (lfd(SourceOIDkey_of prev stop_id rt \<mapsto> LTrue)) =
     Inr (concat (map (spec_segment_rows rt trip_id windows first)
                    (zip ((stop_id, arrival, departure) # sts) sts)), lfd')"
    by blast
  moreover have "spec_segment_rows rt trip_id windows first ((prev, a, start), st) =
      concat (map (\<lambda>w. map (\<lambda>i. (SourceOIDkey_of prev stop_id rt, i + (start - first),
                                     i + (arrival - first), trip_id)) (spec_ticks w)) windows)"
    by (simp add: spec_segment_rows_def st)
  ultimately show ?case
    by (simp add: st Let_def assms(1) Frequency_windows_nonzero [OF assms(2)])
qed

lemma Make_Frequency_Rows_spec:
  assumes "frequencies_dict trip_id = Some windows"
    and "\<forall>w \<in> set windows. snd (snd w) \<noteq> 0"
    and "map_of trip_routetype_dict trip_id = Some route_type"
  shows "\<exists>lfd'. Make_Frequency_Rows trip_routetype_dict frequencies_dict trip_id visits lfd =
           Inr (spec_frequency_rows route_type trip_id windows visits, lfd')"
proof (cases visits)
  case Nil
  then show ?thesis by (simp add: Make_Frequency_Rows_def spec_frequency_rows_def)
next
  case (Cons v vs)
  obtain s0 a0 d0 where v: "v = (s0, a0, d0)" by (cases v) auto
  show ?thesis
  proof (cases vs)
    case Nil
    with Cons show ?thesis by (simp add: Make_Frequency_Rows_def spec_frequency_rows_def)
  next
    case (Cons w ws)
    from Frequency_loop_nonzero [of frequencies_dict trip_id windows route_type d0 vs s0 d0 lfd a0,
        OF assms(1,2)]
    obtain lfd' where
      "Frequency_loop route_type trip_id frequencies_dict d0 vs s0 d0 lfd =
         Inr (concat (map (spec_segment_rows route_type trip_id windows d0)
                        (zip ((s0, a0, d0) # vs) vs)), lfd')"
      by blast
    then have "Make_Frequency_Rows trip_routetype_dict frequencies_dict trip_id visits lfd =
        Inr (spec_frequency_rows route_type trip_id windows visits, lfd')"
      using assms(3) Cons \<open>visits = v # vs\<close>
      by (simp add: Make_Frequency_Rows_def spec_frequency_rows_def v)
    then show ?thesis by blast
  qed
qed

text \<open>
  Claim C2, as amended. A trip with windows in \<open>frequencies_dict\<close> (none of headway 0, as
  the script builds the table) whose query is answered returns normally; for every segment,
  in order, and every window, in order, it has one row per tick, with the key of the
  segment, the trip id, the start \<open>tick + relStart\<close> and the end \<open>tick + relEnd\<close>, both
  offsets taken from the first departure. The ticks of a window are the rounded start plus
  \<open>k\<close> headways for \<open>k\<close> below the ceiling of (rounded end - rounded start) / headway: the
  ceiling, not the floor, and none when that is not positive. For a negative headway these
  are the ticks stepping down from the rounded start while above the rounded end.
\<close>

theorem frequency_rows:
  assumes "frequencies_dict trip_id = Some windows"
    and "\<forall>w \<in> set windows. snd (snd w) \<noteq> 0"
    and "c (stoptimefetch trip_id) = Inr visits"
    and "map_of trip_routetype_dict trip_id = Some route_type"
  shows "(\<exists>lfd'. Make_Rows_For_Trip c trip_routetype_dict frequencies_dict trip_id lfd =
            Inr (concat (map (spec_segment_rows route_type trip_id windows
                                (snd (snd (hd visits))))
                           (zip visits (tl visits))), lfd')) \<and>
         (\<forall>w \<in> set windows.
            length (spec_ticks w) =
              nat \<lceil>rat_of_int (py_round (fst (snd w)) - py_round (fst w)) / rat_of_int (snd (snd w))\<rceil> \<and>
            (\<forall>k < length (spec_ticks w).
               spec_ticks w ! k = py_round (fst w) + int k * snd (snd w)))"
proof
  from Make_Frequency_Rows_spec [of frequencies_dict trip_id windows trip_routetype_dict
      route_type visits lfd, OF assms(1,2,4)] obtain lfd' where
    "Make_Frequency_Rows trip_routetype_dict frequencies_dict trip_id visits lfd =
       Inr (spec_frequency_rows route_type trip_id windows visits, lfd')"
    by blast
  with assms(1,3)
  have "Make_Rows_For_Trip c trip_routetype_dict frequencies_dict trip_id lfd =
          Inr (concat (map (spec_segment_rows route_type trip_id windows (snd (snd (hd visits))))
                         (zip visits (tl visits))), lfd')"
    by (simp add: Make_Rows_For_Trip_def spec_frequency_rows_def)
  then show "\<exists>lfd'. Make_Rows_For_Trip c trip_routetype_dict frequencies_dict trip_id lfd =
            Inr (concat (map (spec_segment_rows route_type trip_id windows
                                (snd (snd (hd visits))))
                           (zip visits (tl visits))), lfd')"
    by blast
next
  show "\<forall>w \<in> set windows.
            length (spec_ticks w) =
              nat \<lceil>rat_of_int (py_round (fst (snd w)) - py_round (fst w)) / rat_of_int (snd (snd w))\<rceil> \<and>
            (\<forall>k < length (spec_ticks w).
               spec_ticks w ! k = py_round (fst w) + int k * snd (snd w))"
    by (auto simp: spec_ticks_def split: prod.splits)
qed

lemma py_round_of_int: "py_round (of_int n) = n"
  by (simp add: py_round_def) linarith

text \<open>
  Claim C2 as stated fails: the window from 0 to 1000 with headway 600 gives the two ticks
  0 and 600, and the floor of 1000 / 600 is 1. (A window of headway 0, which the script
  never stores in \<open>frequencies_dict\<close>, would end the trip with ValueError.)
\<close>

theorem frequency_count_counterexample:
  "Make_Rows_For_Trip (\<lambda>q. Inr [(''A'', 0, 0), (''B'', 5, 10)]) [(''T2'', PInt 3)]
      [''T2'' \<mapsto> [(0, 1000, 600)]] ''T2'' Map.empty
     = Inr ([(''A , B , 3'', 0, 5, ''T2''), (''A , B , 3'', 600, 605, ''T2'')],
            [''A , B , 3'' \<mapsto> LTrue]) \<and>
   \<lfloor>rat_of_int (py_round 1000 - py_round 0) / rat_of_int 600\<rfloor> = 1 \<and>
   Make_Rows_For_Trip (\<lambda>q. Inr [(''A'', 0, 0), (''B'', 5, 10)]) [(''T2'', PInt 3)]
      [''T2'' \<mapsto> [(0, 1000, 0)]] ''T2'' Map.empty = Inl ValueError"
proof -
  have r: "py_round 0 = 0" "py_round 1000 = 1000"
    using py_round_of_int [of 0] py_round_of_int [of 1000] by simp_all
  have ticks: "range_up 0 1000 600 = [0, 600]"
    by (simp add: range_up.simps)
  have "\<lfloor>rat_of_int (py_round 1000 - py_round 0) / rat_of_int 600\<rfloor>
          = (py_round 1000 - py_round 0) div 600"
    by (rule floor_divide_of_int_eq)
  also have "\<dots> = 1"
    by (simp add: r)
  finally have fl: "\<lfloor>rat_of_int (py_round 1000 - py_round 0) / rat_of_int 600\<rfloor> = 1" .
  have "Make_Rows_For_Trip (\<lambda>q. Inr [(''A'', 0, 0), (''B'', 5, 10)]) [(''T2'', PInt 3)]
      [''T2'' \<mapsto> [(0, 1000, 600)]] ''T2'' Map.empty
     = Inr ([(''A , B , 3'', 0, 5, ''T2''), (''A , B , 3'', 600, 605, ''T2'')],
            [''A , B , 3'' \<mapsto> LTrue])"
    by (simp add: Make_Rows_For_Trip_def Make_Frequency_Rows_def py_range_def r ticks
        SourceOIDkey_of_def fmt_s_def str_int_3 Let_def)
  moreover have "Make_Rows_For_Trip (\<lambda>q. Inr [(''A'', 0, 0), (''B'', 5, 10)]) [(''T2'', PInt 3)]
      [''T2'' \<mapsto> [(0, 1000, 0)]] ''T2'' Map.empty = Inl ValueError"
    by (simp add: Make_Rows_For_Trip_def Make_Frequency_Rows_def py_range_def Let_def)
  ultimately show ?thesis using fl by blast
qed

theorem frequency_rows_witness:
  "(\<exists>lfd'. Make_Rows_For_Trip (\<lambda>q. Inr [(''A'', 0, 0), (''B'', 5, 10)]) [(''T2'', PInt 3)]
      [''T2'' \<mapsto> [(0, 1000, 600)]] ''T2'' Map.empty
     = Inr ([(''A , B , 3'', 0, 5, ''T2''), (''A , B , 3'', 600, 605, ''T2'')], lfd')) \<and>
   (\<exists>lfd'. Make_Rows_For_Trip (\<lambda>q. Inr [(''A'', 0, 0), (''B'', 5, 10)]) [(''T2'', PInt 3)]
      [''T2'' \<mapsto> [(1000, 0, - 600)]] ''T2'' Map.empty
     = Inr ([(''A , B , 3'', 1000, 1005, ''T2''), (''A , B , 3'', 400, 405, ''T2'')], lfd'))"
proof -
  let ?visits = "[(''A'', 0::int, 0::int), (''B'', 5, 10)]"
  have r: "py_round 0 = 0" "py_round 1000 = 1000"
    using py_round_of_int [of 0] py_round_of_int [of 1000] by simp_all
  have "\<lceil>rat_of_int 5 / rat_of_int 3\<rceil> = - (- 5 div 3)"
    by (rule ceiling_divide_eq_div)
  then have n: "nat \<lceil>5 / 3 :: rat\<rceil> = Suc (Suc 0)"
    by simp
  have ticks: "spec_ticks (0, 1000, 600) = [0, 600]"
    by (simp add: spec_ticks_def r n)
  have ticks': "spec_ticks (1000, 0, - 600) = [1000, 400]"
    by (simp add: spec_ticks_def r n)
  have q: "(\<lambda>q. Inr ?visits :: error + stop_time list) (stoptimefetch ''T2'') = Inr ?visits"
    by simp
  have "\<exists>lfd'. Make_Rows_For_Trip (\<lambda>q. Inr ?visits) [(''T2'', PInt 3)]
      [''T2'' \<mapsto> [(0, 1000, 600)]] ''T2'' Map.empty
     = Inr (concat (map (spec_segment_rows (PInt 3) ''T2'' [(0, 1000, 600)] 0)
                      [((''A'', 0, 0), (''B'', 5, 10))]), lfd')"
    using frequency_rows [of "[''T2'' \<mapsto> [(0, 1000, 600)]]" "''T2''" "[(0, 1000, 600)]"
        "\<lambda>q. Inr ?visits" ?visits "[(''T2'', PInt 3)]" "PInt 3" Map.empty, OF _ _ q]
    by simp
  then have up: "\<exists>lfd'. Make_Rows_For_Trip (\<lambda>q. Inr ?visits) [(''T2'', PInt 3)]
      [''T2'' \<mapsto> [(0, 1000, 600)]] ''T2'' Map.empty
     = Inr ([(''A , B , 3'', 0, 5, ''T2''), (''A , B , 3'', 600, 605, ''T2'')], lfd')"
    by (simp add: spec_segment_rows_def ticks SourceOIDkey_of_def fmt_s_def str_int_3)
  have "\<exists>lfd'. Make_Rows_For_Trip (\<lambda>q. Inr ?visits) [(''T2'', PInt 3)]
      [''T2'' \<mapsto> [(1000, 0, - 600)]] ''T2'' Map.empty
     = Inr (concat (map (spec_segment_rows (PInt 3) ''T2'' [(1000, 0, - 600)] 0)
                      [((''A'', 0, 0), (''B'', 5, 10))]), lfd')"
    using frequency_rows [of "[''T2'' \<mapsto> [(1000, 0, - 600)]]" "''T2''" "[(1000, 0, - 600)]"
        "\<lambda>q. Inr ?visits" ?visits "[(''T2'', PInt 3)]" "PInt 3" Map.empty, OF _ _ q]
    by simp
  then have down: "\<exists>lfd'. Make_Rows_For_Trip (\<lambda>q. Inr ?visits) [(''T2'', PInt 3)]
      [''T2'' \<mapsto> [(1000, 0, - 600)]] ''T2'' Map.empty
     = Inr ([(''A , B , 3'', 1000, 1005, ''T2''), (''A , B , 3'', 400, 405, ''T2'')], lfd')"
    by (simp add: spec_segment_rows_def ticks' SourceOIDkey_of_def fmt_s_def str_int_3)
  from up down show ?thesis by (rule conjI)
qed

section \<open>The dictionaries of the script\<close>

lemma frequencies_loop_fst:
  "fst (frequencies_loop freqs d msgs) t =
     (if spec_windows freqs t = [] then d t
      else Some ((case d t of None \<Rightarrow> [] | Some ws \<Rightarrow> ws) @ spec_windows freqs t))"
proof (induction freqs arbitrary: d msgs)
  case Nil
  then show ?case by (simp add: spec_windows_def)
next
  case (Cons freq freqs)
  obtain trip_id a b h where freq: "freq = (trip_id, a, b, h)"
    by (cases freq) auto
  show ?case
    by (simp add: freq Cons.IH spec_windows_def Let_def split: option.splits)
qed

lemma frequencies_loop_snd:
  "snd (frequencies_loop freqs d msgs) =
     msgs @ map (\<lambda>freq. AddWarning (zero_headway_message (fst freq)))
              (filter (\<lambda>freq. snd (snd (snd freq)) = 0) freqs)"
proof (induction freqs arbitrary: d msgs)
  case Nil
  then show ?case by simp
next
  case (Cons freq freqs)
  obtain trip_id a b h where freq: "freq = (trip_id, a, b, h)"
    by (cases freq) auto
  show ?case
    by (simp add: freq Cons.IH Let_def)
qed

lemma frequencies_loop_empty:
  "fst (frequencies_loop freqs Map.empty msgs) t =
     (if spec_windows freqs t = [] then None else Some (spec_windows freqs t))"
  by (simp add: frequencies_loop_fst)

lemma frequencies_loop_nonzero:
  assumes "fst (frequencies_loop freqs Map.empty msgs) t = Some windows"
  shows "\<forall>w \<in> set windows. snd (snd w) \<noteq> 0"
proof -
  from assms have "windows = spec_windows freqs t"
    by (simp add: frequencies_loop_empty split: if_splits)
  then show ?thesis
    by (auto simp: spec_windows_def)
qed

lemma spec_windows_filter:
  "spec_windows (filter (\<lambda>freq. snd (snd (snd freq)) \<noteq> 0) freqs) t = spec_windows freqs t"
  by (auto simp: spec_windows_def intro!: arg_cong [where f = "map snd"] filter_cong)

lemma frequencies_loop_filter:
  "fst (frequencies_loop (filter (\<lambda>freq. snd (snd (snd freq)) \<noteq> 0) freqs) Map.empty msgs) =
   fst (frequencies_loop freqs Map.empty msgs')"
  by (rule ext) (simp add: frequencies_loop_empty spec_windows_filter)

lemma trips_loop_keys:
  "fst ` set (fst (trips_loop RouteDict ts d msgs)) = fst ` set d \<union> fst ` set ts"
proof (induction ts arbitrary: d msgs)
  case Nil
  then show ?case by simp
next
  case (Cons trip ts)
  show ?case
    by (cases "RouteDict (snd trip)") (auto simp: Cons.IH dom_update)
qed

lemma trips_loop_other:
  "t \<notin> fst ` set ts \<Longrightarrow> map_of (fst (trips_loop RouteDict ts d msgs)) t = map_of d t"
proof (induction ts arbitrary: d msgs)
  case Nil
  then show ?case by simp
next
  case (Cons trip ts)
  then have "t \<noteq> fst trip" and "t \<notin> fst ` set ts" by auto
  then show ?case
    by (cases "RouteDict (snd trip)") (simp_all add: Cons.IH update_conv')
qed

lemma trips_loop_lookup:
  "distinct (map fst ts) \<Longrightarrow> (t, r) \<in> set ts \<Longrightarrow>
   map_of (fst (trips_loop RouteDict ts d msgs)) t =
     Some (case RouteDict r of Some route_type \<Rightarrow> route_type | None \<Rightarrow> PInt 100)"
proof (induction ts arbitrary: d msgs)
  case Nil
  then show ?case by simp
next
  case (Cons trip ts)
  show ?case
  proof (cases "(t, r) = trip")
    case True
    with Cons.prems(1) have "t \<notin> fst ` set ts" by force
    from trips_loop_other [OF this] True [symmetric] show ?thesis
      by (cases "RouteDict r") (simp_all add: update_conv')
  next
    case False
    with Cons.prems have "(t, r) \<in> set ts" and "distinct (map fst ts)" by auto
    from Cons.IH [OF this(2,1)] show ?thesis
      by (cases "RouteDict (snd trip)") simp_all
  qed
qed

lemma trips_loop_snd:
  "snd (trips_loop RouteDict ts d msgs) =
     msgs @ map (\<lambda>trip. AddWarning (unknown_route_message (fst trip) (snd trip)))
              (filter (\<lambda>trip. RouteDict (snd trip) = None) ts)"
proof (induction ts arbitrary: d msgs)
  case Nil
  then show ?case by simp
next
  case (Cons trip ts)
  show ?case
    by (cases "RouteDict (snd trip)") (simp_all add: Cons.IH)
qed

lemma distinct_count_list: "distinct xs \<longleftrightarrow> (\<forall>x \<in> set xs. count_list xs x \<le> 1)"
proof (induction xs)
  case Nil
  then show ?case by simp
next
  case (Cons a xs)
  show ?case
  proof
    assume "distinct (a # xs)"
    with Cons show "\<forall>x \<in> set (a # xs). count_list (a # xs) x \<le> 1"
      by auto
  next
    assume all: "\<forall>x \<in> set (a # xs). count_list (a # xs) x \<le> 1"
    then have "count_list xs a = 0" by simp
    then have a: "a \<notin> set xs" by (simp add: count_list_0_iff)
    have "\<forall>x \<in> set xs. count_list xs x \<le> 1"
    proof
      fix x assume x: "x \<in> set xs"
      with a have "x \<noteq> a" by auto
      with all x show "count_list xs x \<le> 1" by auto
    qed
    with Cons a show "distinct (a # xs)" by simp
  qed
qed

lemma set_tripDuplicateFetch:
  "set (tripDuplicateFetch ts) =
     {(trip_id, n). trip_id \<in> fst ` set ts \<and> n = int (count_list (map fst ts) trip_id) \<and> 1 < n}"
  by (auto simp: tripDuplicateFetch_def Let_def)

lemma tripDuplicateFetch_Nil: "tripDuplicateFetch ts = [] \<longleftrightarrow> distinct (map fst ts)"
proof -
  have "tripDuplicateFetch ts = [] \<longleftrightarrow> set (tripDuplicateFetch ts) = {}"
    by simp
  also have "\<dots> \<longleftrightarrow> (\<forall>x \<in> set (map fst ts). count_list (map fst ts) x \<le> 1)"
    unfolding set_tripDuplicateFetch by (auto simp: not_less)
  finally show ?thesis
    by (simp only: distinct_count_list)
qed

lemma make_trip_routetype_dict_lookup:
  "\<forall>t \<in> set (map fst (fst (make_trip_routetype_dict db))).
     map_of (fst (make_trip_routetype_dict db)) t \<noteq> None"
  by (simp add: map_of_eq_None_iff)

lemma make_frequencies_dict_nonzero:
  "\<forall>t windows. fst (make_frequencies_dict db) t = Some windows
      \<longrightarrow> (\<forall>w \<in> set windows. snd (snd w) \<noteq> 0)"
  unfolding make_frequencies_dict_def
  using frequencies_loop_nonzero by blast

lemma make_frequencies_dict_fst:
  "fst (make_frequencies_dict db) t =
     (if spec_windows (frequencies db) t = [] then None
      else Some (spec_windows (frequencies db) t))"
  by (simp add: make_frequencies_dict_def frequencies_loop_empty)

lemma make_frequencies_dict_snd:
  "snd (make_frequencies_dict db) =
     overlap_messages db
     @ map (\<lambda>trip. AddWarning (unknown_route_message (fst trip) (snd trip)))
         (filter (\<lambda>trip. routes_loop (routes db) Map.empty (snd trip) = None) (trips db))
     @ map (\<lambda>freq. AddWarning (zero_headway_message (fst freq)))
         (filter (\<lambda>freq. snd (snd (snd freq)) = 0) (frequencies db))"
  by (simp add: make_frequencies_dict_def make_trip_routetype_dict_def frequencies_loop_snd
      trips_loop_snd)

lemma make_trip_routetype_dict_keys:
  "set (map fst (fst (make_trip_routetype_dict db))) = fst ` set (trips db)"
  by (simp add: make_trip_routetype_dict_def trips_loop_keys)

section \<open>The rows of the script\<close>

lemma Make_Rows_For_Trip_spec:
  assumes "c_execute db (stoptimefetch t) = Inr visits"
    and "map_of (fst (make_trip_routetype_dict db)) t = Some rt"
  shows "\<exists>lfd'. Make_Rows_For_Trip (c_execute db) (fst (make_trip_routetype_dict db))
                   (fst (make_frequencies_dict db)) t lfd = Inr (spec_trip_rows db t, lfd')"
proof (cases "spec_windows (frequencies db) t = []")
  case True
  then have none: "fst (make_frequencies_dict db) t = None"
    by (simp add: make_frequencies_dict_fst)
  from Make_StopsTimes_Rows_spec [OF assms(2), of visits lfd] obtain lfd' where
    "Make_StopsTimes_Rows (fst (make_trip_routetype_dict db)) t visits lfd =
       Inr (spec_static_rows rt t visits, lfd')"
    by blast
  with assms none True show ?thesis
    by (simp add: Make_Rows_For_Trip_def spec_trip_rows_def)
next
  case False
  then have some: "fst (make_frequencies_dict db) t = Some (spec_windows (frequencies db) t)"
    by (simp add: make_frequencies_dict_fst)
  have nz: "\<forall>w \<in> set (spec_windows (frequencies db) t). snd (snd w) \<noteq> 0"
    by (auto simp: spec_windows_def)
  from Make_Frequency_Rows_spec [of "fst (make_frequencies_dict db)" t
      "spec_windows (frequencies db) t" "fst (make_trip_routetype_dict db)" rt visits lfd,
      OF some nz assms(2)]
  obtain lfd' where
    "Make_Frequency_Rows (fst (make_trip_routetype_dict db)) (fst (make_frequencies_dict db)) t
       visits lfd = Inr (spec_frequency_rows rt t (spec_windows (frequencies db) t) visits, lfd')"
    by blast
  with assms some False show ?thesis
    by (simp add: Make_Rows_For_Trip_def spec_trip_rows_def)
qed

lemma chain_rows_spec:
  assumes "\<forall>t \<in> set trip_ids. \<exists>visits. c_execute db (stoptimefetch t) = Inr visits"
    and "\<forall>t \<in> set trip_ids. map_of (fst (make_trip_routetype_dict db)) t \<noteq> None"
  shows "\<exists>lfd'. chain_rows (c_execute db) (fst (make_trip_routetype_dict db))
                   (fst (make_frequencies_dict db)) trip_ids lfd =
                 Inr (concat (map (spec_trip_rows db) trip_ids), lfd')"
  using assms
proof (induction trip_ids arbitrary: lfd)
  case Nil
  then show ?case by simp
next
  case (Cons t ts)
  from Cons.prems obtain visits rt where
    "c_execute db (stoptimefetch t) = Inr visits"
    and "map_of (fst (make_trip_routetype_dict db)) t = Some rt"
    by auto
  from Make_Rows_For_Trip_spec [OF this, of lfd] obtain lfd1 where
    t: "Make_Rows_For_Trip (c_execute db) (fst (make_trip_routetype_dict db))
          (fst (make_frequencies_dict db)) t lfd = Inr (spec_trip_rows db t, lfd1)"
    by blast
  from Cons.prems have
    "\<forall>t \<in> set ts. \<exists>visits. c_execute db (stoptimefetch t) = Inr visits"
    and "\<forall>t \<in> set ts. map_of (fst (make_trip_routetype_dict db)) t \<noteq> None"
    by simp_all
  from Cons.IH [OF this, of lfd1] obtain lfd2 where
    "chain_rows (c_execute db) (fst (make_trip_routetype_dict db))
       (fst (make_frequencies_dict db)) ts lfd1 = Inr (concat (map (spec_trip_rows db) ts), lfd2)"
    by blast
  with t show ?case by simp
qed

lemma chain_rows_Inr_queries:
  "chain_rows c trd fd trip_ids lfd = Inr res \<Longrightarrow>
   \<forall>t \<in> set trip_ids. \<exists>visits. c (stoptimefetch t) = Inr visits"
proof (induction trip_ids arbitrary: lfd res)
  case Nil
  then show ?case by simp
next
  case (Cons t ts)
  from Cons.prems obtain res_t rest where
    t: "Make_Rows_For_Trip c trd fd t lfd = Inr res_t"
    and rest: "chain_rows c trd fd ts (snd res_t) = Inr rest"
    by (auto split: sum.splits)
  from t have "\<exists>visits. c (stoptimefetch t) = Inr visits"
    by (cases "c (stoptimefetch t)") (simp_all add: Make_Rows_For_Trip_def)
  with Cons.IH [OF rest] show ?case by simp
qed

lemma GenerateStopPairs_snd:
  assumes "find (\<lambda>errors. errors \<noteq> []) (GTFSErrors db) = None"
    and "tripDuplicateFetch (trips db) = []"
  shows "snd (GenerateStopPairs db) =
           chain_rows (c_execute db) (fst (make_trip_routetype_dict db))
             (fst (make_frequencies_dict db)) (map fst (fst (make_trip_routetype_dict db)))
             Map.empty"
  using assms by (simp add: GenerateStopPairs_def Let_def split: sum.splits)

lemma GenerateStopPairs_fst:
  assumes "find (\<lambda>errors. errors \<noteq> []) (GTFSErrors db) = None"
    and "tripDuplicateFetch (trips db) = []"
    and "snd (GenerateStopPairs db) = Inr res"
  shows "fst (GenerateStopPairs db) = snd (make_frequencies_dict db)"
  using assms by (simp add: GenerateStopPairs_def Let_def split: sum.splits)

lemma GenerateStopPairs_Inr_reached:
  assumes "snd (GenerateStopPairs db) = Inr res"
  shows "find (\<lambda>errors. errors \<noteq> []) (GTFSErrors db) = None \<and> tripDuplicateFetch (trips db) = []"
  using assms
  by (auto simp: GenerateStopPairs_def Let_def split: option.splits if_splits)

lemma GenerateStopPairs_result:
  assumes "\<forall>errors \<in> set (GTFSErrors db). errors = []"
    and "distinct (map fst (trips db))"
    and "\<forall>t \<in> fst ` set (trips db). \<exists>visits. c_execute db (stoptimefetch t) = Inr visits"
  shows "\<exists>lfd. GenerateStopPairs db =
           (snd (make_frequencies_dict db),
            Inr (concat (map (spec_trip_rows db) (map fst (fst (make_trip_routetype_dict db)))),
                 lfd))"
proof -
  from assms(1) have none: "find (\<lambda>errors. errors \<noteq> []) (GTFSErrors db) = None"
    by (auto simp: find_None_iff)
  from assms(2) have nodup: "tripDuplicateFetch (trips db) = []"
    by (simp add: tripDuplicateFetch_Nil)
  have q: "\<forall>t \<in> set (map fst (fst (make_trip_routetype_dict db))).
             \<exists>visits. c_execute db (stoptimefetch t) = Inr visits"
    using assms(3) by (simp only: make_trip_routetype_dict_keys)
  from chain_rows_spec [OF q make_trip_routetype_dict_lookup, of Map.empty] obtain lfd where
    "chain_rows (c_execute db) (fst (make_trip_routetype_dict db))
       (fst (make_frequencies_dict db)) (map fst (fst (make_trip_routetype_dict db))) Map.empty =
     Inr (concat (map (spec_trip_rows db) (map fst (fst (make_trip_routetype_dict db)))), lfd)"
    by blast
  with none nodup have "GenerateStopPairs db =
           (snd (make_frequencies_dict db),
            Inr (concat (map (spec_trip_rows db) (map fst (fst (make_trip_routetype_dict db)))),
                 lfd))"
    by (simp add: GenerateStopPairs_def Let_def)
  then show ?thesis by blast
qed

section \<open>Frequency records with headway 0\<close>

lemma update_new_key:
  "k \<notin> fst ` set d \<Longrightarrow> map fst (AList.update k v d) = map fst d @ [k]"
  by (induction d) auto

lemma trips_loop_order:
  "distinct (map fst ts) \<Longrightarrow> fst ` set d \<inter> fst ` set ts = {} \<Longrightarrow>
   map fst (fst (trips_loop RouteDict ts d msgs)) = map fst d @ map fst ts"
proof (induction ts arbitrary: d msgs)
  case Nil
  then show ?case by simp
next
  case (Cons trip ts)
  from Cons.prems have new: "fst trip \<notin> fst ` set d" by auto
  have disj: "fst ` set (AList.update (fst trip) v d) \<inter> fst ` set ts = {}" for v
    using Cons.prems by (auto simp: dom_update)
  from Cons.prems have dist: "distinct (map fst ts)" by simp
  show ?case
    by (cases "RouteDict (snd trip)")
       (simp_all add: Cons.IH [OF dist disj] update_new_key [OF new])
qed

lemma make_trip_routetype_dict_order:
  "distinct (map fst (trips db)) \<Longrightarrow>
   map fst (fst (make_trip_routetype_dict db)) = map fst (trips db)"
  using trips_loop_order [of "trips db" "[]"]
  by (simp add: make_trip_routetype_dict_def)

text \<open>
  Claim C9. Take a run that gets through (loading reported no error, no \<open>trip_id\<close> is
  repeated, the queries on \<open>stop_times\<close> are answered). The script then ends without an
  exception; its log holds, after the other warnings, one warning for every frequency record
  with headway 0, naming its trip; and its rows are, trip after trip, the rows built from
  the frequency records of headway other than 0 alone: a window of headway 0 yields no row,
  every other window yields its rows, and a trip left without a window is a static trip.
  The result is the one of the same input without the records of headway 0.
\<close>

theorem zero_headway_discarded:
  assumes "\<forall>errors \<in> set (GTFSErrors db). errors = []"
    and "distinct (map fst (trips db))"
    and "\<forall>t \<in> fst ` set (trips db). \<exists>visits. c_execute db (stoptimefetch t) = Inr visits"
  shows "(\<exists>lfd. GenerateStopPairs db =
           (overlap_messages db
            @ map (\<lambda>trip. AddWarning (unknown_route_message (fst trip) (snd trip)))
                (filter (\<lambda>trip. routes_loop (routes db) Map.empty (snd trip) = None) (trips db))
            @ map (\<lambda>freq. AddWarning (zero_headway_message (fst freq)))
                (filter (\<lambda>freq. snd (snd (snd freq)) = 0) (frequencies db)),
            Inr (concat (map (spec_trip_rows db) (map fst (trips db))), lfd))) \<and>
         snd (GenerateStopPairs db) =
           snd (GenerateStopPairs
                  (db\<lparr>frequencies :=
                        filter (\<lambda>freq. snd (snd (snd freq)) \<noteq> 0) (frequencies db)\<rparr>))"
proof
  from GenerateStopPairs_result [OF assms] obtain lfd where
    "GenerateStopPairs db =
       (snd (make_frequencies_dict db),
        Inr (concat (map (spec_trip_rows db) (map fst (fst (make_trip_routetype_dict db)))), lfd))"
    by blast
  then show "\<exists>lfd. GenerateStopPairs db =
           (overlap_messages db
            @ map (\<lambda>trip. AddWarning (unknown_route_message (fst trip) (snd trip)))
                (filter (\<lambda>trip. routes_loop (routes db) Map.empty (snd trip) = None) (trips db))
            @ map (\<lambda>freq. AddWarning (zero_headway_message (fst freq)))
                (filter (\<lambda>freq. snd (snd (snd freq)) = 0) (frequencies db)),
            Inr (concat (map (spec_trip_rows db) (map fst (trips db))), lfd))"
    by (simp add: make_frequencies_dict_snd make_trip_routetype_dict_order [OF assms(2)])
next
  let ?db' = "db\<lparr>frequencies := filter (\<lambda>freq. snd (snd (snd freq)) \<noteq> 0) (frequencies db)\<rparr>"
  have tr: "make_trip_routetype_dict ?db' = make_trip_routetype_dict db"
    by (simp add: make_trip_routetype_dict_def overlap_messages_def)
  have fr: "fst (make_frequencies_dict ?db') = fst (make_frequencies_dict db)"
    by (simp add: make_frequencies_dict_def tr frequencies_loop_filter)
  show "snd (GenerateStopPairs db) = snd (GenerateStopPairs ?db')"
  proof (cases "find (\<lambda>errors. errors \<noteq> []) (GTFSErrors db)")
    case (Some errors)
    then show ?thesis by (simp add: GenerateStopPairs_def)
  next
    case None
    show ?thesis
    proof (cases "tripDuplicateFetch (trips db) = []")
      case False
      with None show ?thesis by (simp add: GenerateStopPairs_def Let_def)
    next
      case True
      from None True show ?thesis
        by (simp add: GenerateStopPairs_snd tr fr)
    qed
  qed
qed

theorem zero_headway_discarded_witness:
  "\<exists>lfd. GenerateStopPairs
     \<lparr>GTFSErrors = [], overlapwarning = [], routes = [(''R1'', PInt 3)],
      trips = [(''T1'', ''R1''), (''T2'', ''R1'')],
      frequencies = [(''T1'', 0, 3600, 0), (''T2'', 0, 1200, 0), (''T2'', 0, 1200, 600)],
      c_execute = (\<lambda>q. Inr [(''A'', 0, 0), (''B'', 5, 10)])\<rparr> =
   ([AddWarning (zero_headway_message ''T1''), AddWarning (zero_headway_message ''T2'')],
    Inr ([(''A , B , 3'', 0, 5, ''T1''),
          (''A , B , 3'', 0, 5, ''T2''), (''A , B , 3'', 600, 605, ''T2'')], lfd))"
proof -
  let ?db = "\<lparr>GTFSErrors = [], overlapwarning = [], routes = [(''R1'', PInt 3)],
      trips = [(''T1'', ''R1''), (''T2'', ''R1'')],
      frequencies = [(''T1'', 0, 3600, 0), (''T2'', 0, 1200, 0), (''T2'', 0, 1200, 600)],
      c_execute = (\<lambda>q. Inr [(''A'', 0, 0), (''B'', 5, 10)])\<rparr>"
  have h1: "\<forall>errors \<in> set (GTFSErrors ?db). errors = []" by simp
  have h2: "distinct (map fst (trips ?db))" by simp
  have h3: "\<forall>t \<in> fst ` set (trips ?db). \<exists>visits. c_execute ?db (stoptimefetch t) = Inr visits"
    by simp
  have r: "py_round 0 = 0" "py_round 1200 = 1200"
    using py_round_of_int [of 0] py_round_of_int [of 1200] by simp_all
  have ticks: "spec_ticks (0, 1200, 600) = [0, 600]"
    by (simp add: spec_ticks_def r) (simp add: numeral_2_eq_2)
  have trd: "fst (make_trip_routetype_dict ?db) = [(''T1'', PInt 3), (''T2'', PInt 3)]"
    by (simp add: make_trip_routetype_dict_def)
  let ?fr = "[(''T1'', 0, 3600, 0), (''T2'', 0, 1200, 0), (''T2'', 0, 1200, 600)] :: freq_row list"
  have w1: "spec_windows ?fr ''T1'' = []"
    by (simp add: spec_windows_def)
  have w2: "spec_windows ?fr ''T2'' = [(0, 1200, 600)]"
    by (simp add: spec_windows_def)
  have key: "SourceOIDkey_of ''A'' ''B'' (PInt 3) = ''A , B , 3''"
    by (simp add: SourceOIDkey_of_def fmt_s_def str_int_3)
  have t1: "spec_trip_rows ?db ''T1'' = [(''A , B , 3'', 0, 5, ''T1'')]"
    by (simp add: spec_trip_rows_def trd w1 spec_static_rows_def key)
  have t2: "spec_trip_rows ?db ''T2'' =
      [(''A , B , 3'', 0, 5, ''T2''), (''A , B , 3'', 600, 605, ''T2'')]"
    by (simp add: spec_trip_rows_def trd w2 spec_frequency_rows_def spec_segment_rows_def
        ticks key)
  from zero_headway_discarded [OF h1 h2 h3] obtain lfd where
    "GenerateStopPairs ?db =
           (overlap_messages ?db
            @ map (\<lambda>trip. AddWarning (unknown_route_message (fst trip) (snd trip)))
                (filter (\<lambda>trip. routes_loop (routes ?db) Map.empty (snd trip) = None) (trips ?db))
            @ map (\<lambda>freq. AddWarning (zero_headway_message (fst freq)))
                (filter (\<lambda>freq. snd (snd (snd freq)) = 0) (frequencies ?db)),
            Inr (concat (map (spec_trip_rows ?db) (map fst (trips ?db))), lfd))"
    by blast
  then have "GenerateStopPairs ?db =
   ([AddWarning (zero_headway_message ''T1''), AddWarning (zero_headway_message ''T2'')],
    Inr ([(''A , B , 3'', 0, 5, ''T1''),
          (''A , B , 3'', 0, 5, ''T2''), (''A , B , 3'', 600, 605, ''T2'')], lfd))"
    by (simp add: overlap_messages_def t1 t2)
  then show ?thesis by blast
qed

section \<open>Repeated trip identifiers\<close>

text \<open>
  Claim C7, as amended. When loading the GTFS data reported no error: if some \<open>trip_id\<close>
  occurs more than once in \<open>trips\<close>, the script ends with \<open>CustomError\<close> before any row or
  key or other output is made, and the log holds, after the warning on date ranges if
  there is one, the error messages only, one for every repeated \<open>trip_id\<close> with the number of
  its occurrences; one repeated \<open>trip_id\<close> is enough. When moreover the store answers the
  queries on \<open>stop_times\<close> of all trips, the script ends with an exception only if some
  \<open>trip_id\<close> is repeated.
\<close>

theorem duplicate_trip_ids_abort:
  assumes "\<forall>errors \<in> set (GTFSErrors db). errors = []"
  shows "(\<not> distinct (map fst (trips db)) \<longrightarrow>
            GenerateStopPairs db =
              (overlap_messages db
                 @ [AddError ''Your GTFS trips table is invalid.  It contains multiple trips with the same trip_id.'']
                 @ map (\<lambda>tripdup. AddError (tripdup_message tripdup)) (tripDuplicateFetch (trips db))
                 @ [AddError failed_message],
               Inl CustomError)) \<and>
         ((\<forall>t \<in> fst ` set (trips db). \<exists>visits. c_execute db (stoptimefetch t) = Inr visits) \<longrightarrow>
            ((\<exists>e. snd (GenerateStopPairs db) = Inl e) \<longleftrightarrow> \<not> distinct (map fst (trips db)))) \<and>
         set (tripDuplicateFetch (trips db)) =
           {(trip_id, n). trip_id \<in> fst ` set (trips db) \<and>
                          n = int (count_list (map fst (trips db)) trip_id) \<and> 1 < n}"
proof -
  from assms have none: "find (\<lambda>errors. errors \<noteq> []) (GTFSErrors db) = None"
    by (auto simp: find_None_iff)
  have dup: "\<not> distinct (map fst (trips db)) \<Longrightarrow>
      GenerateStopPairs db =
        (overlap_messages db
           @ [AddError ''Your GTFS trips table is invalid.  It contains multiple trips with the same trip_id.'']
           @ map (\<lambda>tripdup. AddError (tripdup_message tripdup)) (tripDuplicateFetch (trips db))
           @ [AddError failed_message],
         Inl CustomError)"
    using none by (simp add: GenerateStopPairs_def Let_def tripDuplicateFetch_Nil)
  have iff: "(\<exists>e. snd (GenerateStopPairs db) = Inl e) \<longleftrightarrow> \<not> distinct (map fst (trips db))"
    if q: "\<forall>t \<in> fst ` set (trips db). \<exists>visits. c_execute db (stoptimefetch t) = Inr visits"
  proof
    assume "\<exists>e. snd (GenerateStopPairs db) = Inl e"
    then obtain e where e: "snd (GenerateStopPairs db) = Inl e" by blast
    show "\<not> distinct (map fst (trips db))"
    proof
      assume "distinct (map fst (trips db))"
      from GenerateStopPairs_result [OF assms this q] e show False by auto
    qed
  next
    assume "\<not> distinct (map fst (trips db))"
    from dup [OF this] show "\<exists>e. snd (GenerateStopPairs db) = Inl e" by simp
  qed
  from dup iff set_tripDuplicateFetch [of "trips db"] show ?thesis by blast
qed

theorem duplicate_trip_ids_abort_witness:
  "GenerateStopPairs
     \<lparr>GTFSErrors = [[]], overlapwarning = [], routes = [(''r'', PInt 3)],
      trips = [(''a'', ''r''), (''b'', ''r''), (''a'', ''q'')], frequencies = [],
      c_execute = (\<lambda>q. Inr [])\<rparr> =
   ([AddError ''Your GTFS trips table is invalid.  It contains multiple trips with the same trip_id.'',
     AddError (tripdup_message (''a'', 2)), AddError failed_message],
    Inl CustomError) \<and>
   (\<exists>res. snd (GenerateStopPairs
     \<lparr>GTFSErrors = [[]], overlapwarning = [], routes = [(''r'', PInt 3)],
      trips = [(''a'', ''r''), (''b'', ''r'')], frequencies = [],
      c_execute = (\<lambda>q. Inr [])\<rparr>) = Inr res)"
proof -
  let ?db = "\<lparr>GTFSErrors = [[]], overlapwarning = [], routes = [(''r'', PInt 3)],
      trips = [(''a'', ''r''), (''b'', ''r''), (''a'', ''q'')], frequencies = [],
      c_execute = (\<lambda>q. Inr [])\<rparr>"
  let ?db2 = "\<lparr>GTFSErrors = [[]], overlapwarning = [], routes = [(''r'', PInt 3)],
      trips = [(''a'', ''r''), (''b'', ''r'')], frequencies = [],
      c_execute = (\<lambda>q. Inr [])\<rparr>"
  have ok: "\<forall>errors \<in> set (GTFSErrors ?db). errors = []" by simp
  have dup: "\<not> distinct (map fst (trips ?db))" by simp
  have fetch: "tripDuplicateFetch (trips ?db) = [(''a'', 2)]"
    by (simp add: tripDuplicateFetch_def)
  from duplicate_trip_ids_abort [OF ok] dup
  have "GenerateStopPairs ?db =
              (overlap_messages ?db
                 @ [AddError ''Your GTFS trips table is invalid.  It contains multiple trips with the same trip_id.'']
                 @ map (\<lambda>tripdup. AddError (tripdup_message tripdup)) (tripDuplicateFetch (trips ?db))
                 @ [AddError failed_message],
               Inl CustomError)"
    by blast
  then have one: "GenerateStopPairs ?db =
   ([AddError ''Your GTFS trips table is invalid.  It contains multiple trips with the same trip_id.'',
     AddError (tripdup_message (''a'', 2)), AddError failed_message],
    Inl CustomError)"
    by (simp only: fetch) (simp add: overlap_messages_def)
  have ok2: "\<forall>errors \<in> set (GTFSErrors ?db2). errors = []" by simp
  have q2: "\<forall>t \<in> fst ` set (trips ?db2). \<exists>visits. c_execute ?db2 (stoptimefetch t) = Inr visits"
    by simp
  have nodup2: "distinct (map fst (trips ?db2))" by simp
  from duplicate_trip_ids_abort [OF ok2] q2 nodup2
  have "\<not> (\<exists>e. snd (GenerateStopPairs ?db2) = Inl e)" by blast
  then have two: "\<exists>res. snd (GenerateStopPairs ?db2) = Inr res"
    by (cases "snd (GenerateStopPairs ?db2)") auto
  from one two show ?thesis by (rule conjI)
qed

text \<open>
  Claim C7 as stated fails in the direction "only if": with no \<open>trip_id\<close> repeated, the
  script ends with \<open>CustomError\<close> when loading the GTFS data reported an error, and with the
  exception of the store when a query on \<open>stop_times\<close> cannot be run, as for the \<open>trip_id\<close>
  \<^verbatim>\<open>T'1\<close>, whose apostrophe ends the text in the query too early.
\<close>

theorem fatal_without_duplicate_counterexample:
  "distinct (map fst [(''T1'', ''R1'')]) \<and>
   GenerateStopPairs
     \<lparr>GTFSErrors = [[''stop_times.txt is missing'']], overlapwarning = [],
      routes = [(''R1'', PInt 3)], trips = [(''T1'', ''R1'')], frequencies = [],
      c_execute = (\<lambda>q. Inr [(''A'', 0, 0), (''B'', 5, 10)])\<rparr> =
   ([AddError ''stop_times.txt is missing'', AddError failed_message], Inl CustomError) \<and>
   distinct (map fst [(''T'' @ [CHR 0x27] @ ''1'', ''R1'')]) \<and>
   GenerateStopPairs
     \<lparr>GTFSErrors = [], overlapwarning = [],
      routes = [(''R1'', PInt 3)], trips = [(''T'' @ [CHR 0x27] @ ''1'', ''R1'')], frequencies = [],
      c_execute = (\<lambda>q. if q = stoptimefetch (''T'' @ [CHR 0x27] @ ''1'')
                         then Inl OperationalError else Inr [(''A'', 0, 0), (''B'', 5, 10)])\<rparr> =
   ([AddError failed_message], Inl OperationalError)"
  by (simp add: GenerateStopPairs_def tripDuplicateFetch_def make_trip_routetype_dict_def
      make_frequencies_dict_def overlap_messages_def Make_Rows_For_Trip_def)

section \<open>A trip whose frequency records all have headway 0\<close>

lemma length_spec_static_rows:
  "length (spec_static_rows rt t visits) = length visits - 1"
  by (simp add: spec_static_rows_def)

lemma nth_spec_static_rows:
  assumes "Suc i < length visits"
  shows "spec_static_rows rt t visits ! i =
           (SourceOIDkey_of (fst (visits ! i)) (fst (visits ! Suc i)) rt,
            snd (snd (visits ! i)), fst (snd (visits ! Suc i)), t)"
proof -
  from assms have "i < length (zip visits (tl visits))" by simp
  moreover from assms have "tl visits ! i = visits ! Suc i" by (simp add: nth_tl)
  ultimately show ?thesis
    using assms by (simp add: spec_static_rows_def split: prod.splits)
qed

lemma spec_static_rows_trip:
  "row \<in> set (spec_static_rows rt t visits) \<Longrightarrow> snd (snd (snd row)) = t"
  by (auto simp: spec_static_rows_def split: prod.splits)

lemma spec_frequency_rows_trip:
  "row \<in> set (spec_frequency_rows rt t windows visits) \<Longrightarrow> snd (snd (snd row)) = t"
  by (auto simp: spec_frequency_rows_def spec_segment_rows_def split: prod.splits)

lemma spec_trip_rows_trip:
  "row \<in> set (spec_trip_rows db t) \<Longrightarrow> snd (snd (snd row)) = t"
  by (auto simp: spec_trip_rows_def spec_static_rows_trip spec_frequency_rows_trip
      split: sum.splits option.splits if_splits)

lemma filter_trip_rows:
  assumes "distinct ts" and "t \<in> set ts"
  shows "filter (\<lambda>row. snd (snd (snd row)) = t) (concat (map (spec_trip_rows db) ts)) =
           spec_trip_rows db t"
  using assms
proof (induction ts)
  case Nil
  then show ?case by simp
next
  case (Cons u us)
  have other: "filter (\<lambda>row. snd (snd (snd row)) = t) (concat (map (spec_trip_rows db) vs)) = []"
    if "t \<notin> set vs" for vs
    using that by (auto simp: filter_empty_conv dest: spec_trip_rows_trip)
  show ?case
  proof (cases "t = u")
    case True
    with Cons.prems have "t \<notin> set us" by simp
    from other [OF this] True show ?thesis
      by (simp add: filter_id_conv spec_trip_rows_trip)
  next
    case False
    with Cons.prems have "t \<in> set us" and "distinct us" by auto
    from Cons.IH [OF this(2,1)] False show ?thesis
      by (auto simp: filter_empty_conv dest: spec_trip_rows_trip)
  qed
qed

text \<open>
  Claim C10. Take a run that gets to the schedules and through them (loading reported no
  error, no \<open>trip_id\<close> is repeated, the store answers the query on \<open>stop_times\<close> of every
  trip) and a trip of \<open>trips\<close> that has frequency records, all of them with headway 0. Then
  the trip is absent from \<open>frequencies_dict\<close>, its rows are made by \<open>Make_StopsTimes_Rows\<close>,
  the log holds the warning that names it, and the rows of the script that carry its
  \<open>trip_id\<close> are one row for each of its segments, in order, at the departure and arrival
  times of its stop times.
\<close>

theorem zero_headway_trip_is_static:
  assumes "\<forall>errors \<in> set (GTFSErrors db). errors = []"
    and "distinct (map fst (trips db))"
    and "\<forall>t \<in> fst ` set (trips db). \<exists>answer. c_execute db (stoptimefetch t) = Inr answer"
    and "(trip_id, route_id) \<in> set (trips db)"
    and "c_execute db (stoptimefetch trip_id) = Inr visits"
    and "freq \<in> set (frequencies db)" and "fst freq = trip_id"
    and "\<forall>f \<in> set (frequencies db). fst f = trip_id \<longrightarrow> snd (snd (snd f)) = 0"
  shows "fst (make_frequencies_dict db) trip_id = None \<and>
         (\<forall>lfd0. Make_Rows_For_Trip (c_execute db) (fst (make_trip_routetype_dict db))
                    (fst (make_frequencies_dict db)) trip_id lfd0 =
                  Make_StopsTimes_Rows (fst (make_trip_routetype_dict db)) trip_id visits lfd0) \<and>
         AddWarning (zero_headway_message trip_id) \<in> set (fst (GenerateStopPairs db)) \<and>
         (\<exists>rows lfd.
            snd (GenerateStopPairs db) = Inr (rows, lfd) \<and>
            length (filter (\<lambda>row. snd (snd (snd row)) = trip_id) rows) = length visits - 1 \<and>
            (\<forall>i. Suc i < length visits \<longrightarrow>
               filter (\<lambda>row. snd (snd (snd row)) = trip_id) rows ! i =
                 (SourceOIDkey_of (fst (visits ! i)) (fst (visits ! Suc i))
                    (case routes_loop (routes db) Map.empty route_id of
                       Some route_type \<Rightarrow> route_type | None \<Rightarrow> PInt 100),
                  snd (snd (visits ! i)),
                  fst (snd (visits ! Suc i)),
                  trip_id)))"
proof -
  let ?trd = "fst (make_trip_routetype_dict db)"
  let ?fd = "fst (make_frequencies_dict db)"
  let ?rt = "case routes_loop (routes db) Map.empty route_id of
               Some route_type \<Rightarrow> route_type | None \<Rightarrow> PInt 100"
  let ?rows = "concat (map (spec_trip_rows db) (map fst (trips db)))"
  have nowin: "spec_windows (frequencies db) trip_id = []"
    using assms(8) by (auto simp: spec_windows_def filter_empty_conv)
  then have absent: "?fd trip_id = None"
    by (simp add: make_frequencies_dict_fst)
  with assms(5) have static: "\<forall>lfd0. Make_Rows_For_Trip (c_execute db) ?trd ?fd trip_id lfd0 =
      Make_StopsTimes_Rows ?trd trip_id visits lfd0"
    by (simp add: Make_Rows_For_Trip_def)
  from GenerateStopPairs_result [OF assms(1,2,3)] obtain lfd where
    run: "GenerateStopPairs db = (snd (make_frequencies_dict db), Inr (?rows, lfd))"
    by (auto simp: make_trip_routetype_dict_order [OF assms(2)])
  from assms(6,7,8) have "AddWarning (zero_headway_message trip_id)
      \<in> set (snd (make_frequencies_dict db))"
    by (auto simp: make_frequencies_dict_snd)
  with run have warned: "AddWarning (zero_headway_message trip_id) \<in> set (fst (GenerateStopPairs db))"
    by simp
  have rt: "map_of ?trd trip_id = Some ?rt"
    unfolding make_trip_routetype_dict_def
    by (rule trips_loop_lookup [OF assms(2,4)])
  from assms(4) have "trip_id \<in> set (map fst (trips db))" by force
  from filter_trip_rows [OF assms(2) this]
  have "filter (\<lambda>row. snd (snd (snd row)) = trip_id) ?rows = spec_trip_rows db trip_id" .
  also have "\<dots> = spec_static_rows ?rt trip_id visits"
    using assms(5) rt nowin by (simp add: spec_trip_rows_def)
  finally have mine: "filter (\<lambda>row. snd (snd (snd row)) = trip_id) ?rows =
      spec_static_rows ?rt trip_id visits" .
  have "snd (GenerateStopPairs db) = Inr (?rows, lfd) \<and>
        length (filter (\<lambda>row. snd (snd (snd row)) = trip_id) ?rows) = length visits - 1 \<and>
        (\<forall>i. Suc i < length visits \<longrightarrow>
           filter (\<lambda>row. snd (snd (snd row)) = trip_id) ?rows ! i =
             (SourceOIDkey_of (fst (visits ! i)) (fst (visits ! Suc i)) ?rt,
              snd (snd (visits ! i)), fst (snd (visits ! Suc i)), trip_id))"
    unfolding mine using run
    by (simp add: length_spec_static_rows nth_spec_static_rows)
  with absent static warned show ?thesis by blast
qed

theorem zero_headway_trip_is_static_witness:
  "fst (make_frequencies_dict
          \<lparr>GTFSErrors = [], overlapwarning = [], routes = [(''R1'', PInt 3)],
           trips = [(''T1'', ''R1'')], frequencies = [(''T1'', 0, 3600, 0)],
           c_execute = (\<lambda>q. Inr [(''A'', 0, 0), (''B'', 5, 10)])\<rparr>) ''T1'' = None \<and>
   AddWarning (zero_headway_message ''T1'') \<in>
     set (fst (GenerateStopPairs
          \<lparr>GTFSErrors = [], overlapwarning = [], routes = [(''R1'', PInt 3)],
           trips = [(''T1'', ''R1'')], frequencies = [(''T1'', 0, 3600, 0)],
           c_execute = (\<lambda>q. Inr [(''A'', 0, 0), (''B'', 5, 10)])\<rparr>)) \<and>
   (\<exists>rows lfd.
      snd (GenerateStopPairs
          \<lparr>GTFSErrors = [], overlapwarning = [], routes = [(''R1'', PInt 3)],
           trips = [(''T1'', ''R1'')], frequencies = [(''T1'', 0, 3600, 0)],
           c_execute = (\<lambda>q. Inr [(''A'', 0, 0), (''B'', 5, 10)])\<rparr>) = Inr (rows, lfd) \<and>
      length (filter (\<lambda>row. snd (snd (snd row)) = ''T1'') rows) = 1 \<and>
      filter (\<lambda>row. snd (snd (snd row)) = ''T1'') rows ! 0 = (''A , B , 3'', 0, 5, ''T1''))"
proof -
  let ?db = "\<lparr>GTFSErrors = [], overlapwarning = [], routes = [(''R1'', PInt 3)],
           trips = [(''T1'', ''R1'')], frequencies = [(''T1'', 0, 3600, 0)],
           c_execute = (\<lambda>q. Inr [(''A'', 0, 0), (''B'', 5, 10)])\<rparr>"
  let ?visits = "[(''A'', 0 :: int, 0 :: int), (''B'', 5, 10)]"
  have key: "SourceOIDkey_of ''A'' ''B'' (PInt 3) = ''A , B , 3''"
    by (simp add: SourceOIDkey_of_def fmt_s_def str_int_3)
  have h1: "\<forall>errors \<in> set (GTFSErrors ?db). errors = []" by simp
  have h2: "distinct (map fst (trips ?db))" by simp
  have h3: "\<forall>t \<in> fst ` set (trips ?db). \<exists>answer. c_execute ?db (stoptimefetch t) = Inr answer"
    by simp
  have h4: "(''T1'', ''R1'') \<in> set (trips ?db)" by simp
  have h5: "c_execute ?db (stoptimefetch ''T1'') = Inr ?visits" by simp
  have h6: "(''T1'', 0, 3600, 0) \<in> set (frequencies ?db)" by simp
  have h7: "fst (''T1'', 0 :: rat, 3600 :: rat, 0 :: int) = ''T1''" by simp
  have h8: "\<forall>f \<in> set (frequencies ?db). fst f = ''T1'' \<longrightarrow> snd (snd (snd f)) = 0" by simp
  from zero_headway_trip_is_static [OF h1 h2 h3 h4 h5 h6 h7 h8]
  obtain rows lfd where
    absent: "fst (make_frequencies_dict ?db) ''T1'' = None"
    and warned: "AddWarning (zero_headway_message ''T1'') \<in> set (fst (GenerateStopPairs ?db))"
    and run: "snd (GenerateStopPairs ?db) = Inr (rows, lfd)"
    and len: "length (filter (\<lambda>row. snd (snd (snd row)) = ''T1'') rows) = length ?visits - 1"
    and rows: "\<forall>i. Suc i < length ?visits \<longrightarrow>
               filter (\<lambda>row. snd (snd (snd row)) = ''T1'') rows ! i =
               (SourceOIDkey_of (fst (?visits ! i)) (fst (?visits ! Suc i))
                  (case routes_loop (routes ?db) Map.empty ''R1'' of
                     Some route_type \<Rightarrow> route_type | None \<Rightarrow> PInt 100),
                snd (snd (?visits ! i)),
                fst (snd (?visits ! Suc i)),
                ''T1'')"
    by blast
  from rows have "filter (\<lambda>row. snd (snd (snd row)) = ''T1'') rows ! 0 = (''A , B , 3'', 0, 5, ''T1'')"
    by (simp add: key)
  moreover from len have "length (filter (\<lambda>row. snd (snd (snd row)) = ''T1'') rows) = 1" by simp
  ultimately show ?thesis using absent warned run by blast
qed

section \<open>Keys: text of integers, pieces, entries\<close>

subsection \<open>Decimal text and \<open>py_int\<close>\<close>

lemma digit_cases: "d < 10 \<Longrightarrow> d \<in> {0, 1, 2, 3, 4, 5, 6, 7, 8, 9 :: nat}"
  by auto

lemma digit_val_digit_char: "d < 10 \<Longrightarrow> digit_val (digit_char d) = Some d"
  using digit_cases [of d]
  by (auto simp: digit_val_def digit_char_def)

lemma digit_char_in: "d < 10 \<Longrightarrow> digit_char d \<in> set ''0123456789''"
  using digit_cases [of d]
  by (auto simp: digit_char_def)

lemma set_str_nat: "set (str_nat n) \<subseteq> set ''0123456789''"
proof (induction n rule: str_nat.induct)
  case (1 n)
  show ?case
  proof (cases "n < 10")
    case True
    with digit_char_in [of n] show ?thesis
      by (simp add: str_nat.simps [of n])
  next
    case False
    have "n mod 10 < 10" by simp
    from digit_char_in [OF this] 1 [OF False] False show ?thesis
      by (simp add: str_nat.simps [of n])
  qed
qed

lemma str_nat_not_Nil: "str_nat n \<noteq> []"
  by (simp add: str_nat.simps [of n])

lemma digits_value_snoc:
  "digits_value acc (xs @ [c]) =
     (case digits_value acc xs of
        None \<Rightarrow> None
      | Some v \<Rightarrow> (case digit_val c of None \<Rightarrow> None | Some d \<Rightarrow> Some (10 * v + d)))"
  by (induction xs arbitrary: acc) (auto split: option.splits)

lemma digits_value_str_nat: "digits_value 0 (str_nat n) = Some n"
proof (induction n rule: str_nat.induct)
  case (1 n)
  show ?case
  proof (cases "n < 10")
    case True
    then show ?thesis
      by (simp add: str_nat.simps [of n] digit_val_digit_char)
  next
    case False
    have "n mod 10 < 10" by simp
    with 1 [OF False] False show ?thesis
      by (simp add: str_nat.simps [of n] digits_value_snoc digit_val_digit_char)
  qed
qed

lemma strip_no_space: "\<forall>c \<in> set s. \<not> is_space c \<Longrightarrow> strip s = s"
proof -
  assume ns: "\<forall>c \<in> set s. \<not> is_space c"
  have 1: "dropWhile is_space xs = xs" if "\<forall>c \<in> set xs. \<not> is_space c" for xs
    using that by (cases xs) auto
  from ns have "dropWhile is_space s = s" by (rule 1)
  moreover from ns have "dropWhile is_space (rev s) = rev s" by (intro 1) simp
  ultimately show ?thesis by (simp add: strip_def)
qed

lemma str_nat_chars:
  "c \<in> set (str_nat n) \<Longrightarrow> \<not> is_space c \<and> c \<noteq> CHR ''-'' \<and> c \<noteq> CHR ''+'' \<and> c \<noteq> CHR '',''"
  using set_str_nat [of n] by (auto simp: is_space_def)

lemma py_int_str_int: "py_int (str_int i) = Some i"
proof (cases "i < 0")
  case True
  have "\<forall>c \<in> set (str_int i). \<not> is_space c"
    using True str_nat_chars by (auto simp: str_int_def is_space_def)
  then have "strip (str_int i) = CHR ''-'' # str_nat (nat (- i))"
    using True by (simp add: strip_no_space) (simp add: str_int_def)
  with True show ?thesis
    by (simp add: py_int_def str_nat_not_Nil digits_value_str_nat)
next
  case False
  obtain c cs where s: "str_nat (nat i) = c # cs"
    using str_nat_not_Nil [of "nat i"] by (cases "str_nat (nat i)") auto
  then have "c \<in> set (str_nat (nat i))" by simp
  from str_nat_chars [OF this] have c: "c \<noteq> CHR ''-''" "c \<noteq> CHR ''+''" by simp_all
  have "\<forall>c \<in> set (str_int i). \<not> is_space c"
    using False str_nat_chars by (auto simp: str_int_def)
  then have "strip (str_int i) = c # cs"
    using False s by (simp add: strip_no_space) (simp add: str_int_def)
  moreover have "digits_value 0 (c # cs) = Some (nat i)"
    using digits_value_str_nat [of "nat i"] by (simp only: s)
  ultimately show ?thesis
    using c False by (simp add: py_int_def del: digits_value.simps)
qed

lemma str_int_inj: "str_int i = str_int j \<longleftrightarrow> i = j"
proof
  assume "str_int i = str_int j"
  then have "py_int (str_int i) = py_int (str_int j)" by simp
  then show "i = j" by (simp add: py_int_str_int)
qed simp

lemma str_int_no_comma: "CHR '','' \<notin> set (str_int i)"
  using str_nat_chars by (auto simp: str_int_def)

subsection \<open>Keys and their pieces\<close>

lemma key_prefix_unique:
  assumes "CHR '','' \<notin> set a" and "CHR '','' \<notin> set a'"
    and "a @ '' , '' @ r = a' @ '' , '' @ r'"
  shows "a = a' \<and> r = r'"
proof -
  let ?P = "\<lambda>c. c \<noteq> CHR '',''"
  have tw: "takeWhile ?P (x @ '' , '' @ y) = x @ '' ''" if "CHR '','' \<notin> set x" for x y
  proof -
    have "x @ '' , '' @ y = (x @ '' '') @ CHR '','' # ('' '' @ y)" by simp
    moreover have "\<forall>c \<in> set (x @ '' ''). ?P c" using that by auto
    ultimately show ?thesis
      by (simp only: takeWhile_append2 [of "x @ '' ''" ?P] takeWhile.simps) simp
  qed
  from assms(3) have "takeWhile ?P (a @ '' , '' @ r) = takeWhile ?P (a' @ '' , '' @ r')"
    by simp
  with tw [OF assms(1)] tw [OF assms(2)] have "a = a'" by simp
  with assms(3) show ?thesis by simp
qed

lemma split_delim_step:
  "s \<noteq> [] \<Longrightarrow> take 3 s \<noteq> '' , '' \<Longrightarrow> split_delim acc s = split_delim (hd s # acc) (tl s)"
  by (subst split_delim.simps) simp

lemma split_delim_sep: "split_delim acc ('' , '' @ r) = rev acc # split_delim [] r"
  by (subst split_delim.simps) simp

lemma split_delim_Nil: "split_delim acc [] = [rev acc]"
  by (subst split_delim.simps) simp

lemma split_delim_last: "CHR '','' \<notin> set m \<Longrightarrow> split_delim acc m = [rev acc @ m]"
proof (induction m arbitrary: acc)
  case Nil
  then show ?case by (simp add: split_delim_Nil)
next
  case (Cons c m)
  have "take 3 (c # m) \<noteq> '' , ''"
    using Cons.prems by (cases m) auto
  then have "split_delim acc (c # m) = split_delim (c # acc) m"
    using split_delim_step [of "c # m" acc] by simp
  with Cons show ?case by simp
qed

lemma split_delim_piece:
  "CHR '','' \<notin> set a \<Longrightarrow> split_delim acc (a @ '' , '' @ r) = (rev acc @ a) # split_delim [] r"
proof (induction a arbitrary: acc)
  case Nil
  show ?case using split_delim_sep [of acc r] by simp
next
  case (Cons c a)
  have "take 3 (c # a @ '' , '' @ r) \<noteq> '' , ''"
    using Cons.prems by (cases a) auto
  then have "split_delim acc (c # a @ '' , '' @ r) = split_delim (c # acc) (a @ '' , '' @ r)"
    using split_delim_step [of "c # a @ '' , '' @ r" acc] by simp
  moreover from Cons have "split_delim (c # acc) (a @ '' , '' @ r) = (rev (c # acc) @ a) # split_delim [] r"
    by simp
  ultimately show ?case by simp
qed

lemma split_key_SourceOIDkey:
  assumes "CHR '','' \<notin> set a" and "CHR '','' \<notin> set b" and "CHR '','' \<notin> set (fmt_s m)"
  shows "split_key (SourceOIDkey_of a b m) = [a, b, fmt_s m]"
proof -
  have "split_key (SourceOIDkey_of a b m) = split_delim [] (a @ '' , '' @ (b @ '' , '' @ fmt_s m))"
    by (simp add: split_key_def SourceOIDkey_of_def)
  also have "\<dots> = a # split_delim [] (b @ '' , '' @ fmt_s m)"
    using split_delim_piece [OF assms(1), of "[]"] by simp
  also have "split_delim [] (b @ '' , '' @ fmt_s m) = b # split_delim [] (fmt_s m)"
    using split_delim_piece [OF assms(2), of "[]"] by simp
  also have "split_delim [] (fmt_s m) = [fmt_s m]"
    using split_delim_last [OF assms(3), of "[]"] by simp
  finally show ?thesis .
qed

lemma SourceOIDkey_eq_iff:
  assumes "CHR '','' \<notin> set a \<union> set b \<union> set a' \<union> set b'"
  shows "SourceOIDkey_of a b m = SourceOIDkey_of a' b' m' \<longleftrightarrow>
           a = a' \<and> b = b' \<and> fmt_s m = fmt_s m'"
proof
  assume eq: "SourceOIDkey_of a b m = SourceOIDkey_of a' b' m'"
  then have "a @ '' , '' @ (b @ '' , '' @ fmt_s m) = a' @ '' , '' @ (b' @ '' , '' @ fmt_s m')"
    by (simp add: SourceOIDkey_of_def)
  with assms key_prefix_unique [of a a' "b @ '' , '' @ fmt_s m" "b' @ '' , '' @ fmt_s m'"]
  have a: "a = a'" and "b @ '' , '' @ fmt_s m = b' @ '' , '' @ fmt_s m'"
    by auto
  with assms key_prefix_unique [of b b' "fmt_s m" "fmt_s m'"]
  have "b = b'" and "fmt_s m = fmt_s m'"
    by auto
  with a show "a = a' \<and> b = b' \<and> fmt_s m = fmt_s m'" by simp
next
  assume "a = a' \<and> b = b' \<and> fmt_s m = fmt_s m'"
  then show "SourceOIDkey_of a b m = SourceOIDkey_of a' b' m'"
    by (simp add: SourceOIDkey_of_def)
qed

section \<open>The keys of the line feature dictionary and the rows\<close>

lemma StopsTimes_loop_dom:
  "dom (snd (StopsTimes_loop rt tid sts prev start lfd)) =
     dom lfd \<union> fst ` set (fst (StopsTimes_loop rt tid sts prev start lfd))"
proof (induction sts arbitrary: prev start lfd)
  case Nil
  then show ?case by simp
next
  case (Cons st sts)
  obtain stop_id arrival departure where st: "st = (stop_id, arrival, departure)"
    by (cases st) auto
  define key where "key = SourceOIDkey_of prev stop_id rt"
  define rest where
    "rest = StopsTimes_loop rt tid sts stop_id departure (lfd(key \<mapsto> LTrue))"
  have "dom (snd rest) = dom (lfd(key \<mapsto> LTrue)) \<union> fst ` set (fst rest)"
    unfolding rest_def by (rule Cons.IH)
  moreover have "StopsTimes_loop rt tid (st # sts) prev start lfd =
      ((key, start, arrival, tid) # fst rest, snd rest)"
    by (simp add: st Let_def key_def rest_def)
  ultimately show ?case by auto
qed

lemma Make_StopsTimes_Rows_dom:
  assumes "Make_StopsTimes_Rows trd tid visits lfd = Inr res"
  shows "dom (snd res) = dom lfd \<union> fst ` set (fst res)"
proof (cases "length visits < 2")
  case True
  with assms show ?thesis by (auto simp: Make_StopsTimes_Rows_def)
next
  case False
  with assms obtain rt s0 d0 where "res = StopsTimes_loop rt tid (tl visits) s0 d0 lfd"
    by (auto simp: Make_StopsTimes_Rows_def split: option.splits prod.splits)
  then show ?thesis by (simp only: StopsTimes_loop_dom)
qed

lemma py_range_tick:
  assumes "py_range a b h = Inr ticks"
    and "(0 < h \<and> a < b) \<or> (h < 0 \<and> b < a)"
  shows "ticks \<noteq> []"
  using assms
  by (auto simp: py_range_def range_up.simps [of a b h] range_down.simps [of a b h]
      split: if_splits)

lemma Frequency_windows_keys:
  "Frequency_windows key s e tid windows = Inr rows \<Longrightarrow> fst ` set rows \<subseteq> {key}"
proof (induction windows arbitrary: rows)
  case Nil
  then show ?case by simp
next
  case (Cons w ws)
  obtain a b h where w: "w = (a, b, h)" by (cases w) auto
  from Cons.prems obtain ticks rest where
    "Frequency_windows key s e tid ws = Inr rest"
    and "rows = map (\<lambda>i. (key, i + s, i + e, tid)) ticks @ rest"
    by (auto simp: w split: sum.splits)
  with Cons.IH [of rest] show ?case by auto
qed

lemma Frequency_windows_tick:
  "Frequency_windows key s e tid windows = Inr rows \<Longrightarrow>
   \<exists>w \<in> set windows. window_has_tick w \<Longrightarrow> rows \<noteq> []"
proof (induction windows arbitrary: rows)
  case Nil
  then show ?case by simp
next
  case (Cons w ws)
  obtain a b h where w: "w = (a, b, h)" by (cases w) auto
  from Cons.prems(1) obtain ticks rest where
    ticks: "py_range (py_round a) (py_round b) h = Inr ticks"
    and rest: "Frequency_windows key s e tid ws = Inr rest"
    and rows: "rows = map (\<lambda>i. (key, i + s, i + e, tid)) ticks @ rest"
    by (auto simp: w split: sum.splits)
  show ?case
  proof (cases "window_has_tick w")
    case True
    then have "(0 < h \<and> py_round a < py_round b) \<or> (h < 0 \<and> py_round b < py_round a)"
      by (simp add: window_has_tick_def w)
    from py_range_tick [OF ticks this] rows show ?thesis by simp
  next
    case False
    with Cons.prems(2) have "\<exists>w \<in> set ws. window_has_tick w" by simp
    from Cons.IH [OF rest this] rows show ?thesis by simp
  qed
qed

lemma Frequency_loop_dom:
  assumes "frequencies_dict trip_id = Some windows"
  shows "Frequency_loop rt trip_id frequencies_dict first sts prev start lfd = Inr res \<Longrightarrow>
         dom lfd \<union> fst ` set (fst res) \<subseteq> dom (snd res) \<and>
         ((\<exists>w \<in> set windows. window_has_tick w) \<longrightarrow>
            dom (snd res) = dom lfd \<union> fst ` set (fst res))"
proof (induction sts arbitrary: prev start lfd res)
  case Nil
  then show ?case by auto
next
  case (Cons st sts)
  obtain stop_id arrival departure where st: "st = (stop_id, arrival, departure)"
    by (cases st) auto
  let ?key = "SourceOIDkey_of prev stop_id rt"
  from Cons.prems obtain rows rest where
    rows: "Frequency_windows ?key (start - first) (arrival - first) trip_id windows = Inr rows"
    and rest: "Frequency_loop rt trip_id frequencies_dict first sts stop_id departure
                 (lfd(?key \<mapsto> LTrue)) = Inr rest"
    and res: "res = (rows @ fst rest, snd rest)"
    by (auto simp: st Let_def assms split: sum.splits)
  from Cons.IH [OF rest]
  have sub: "dom (lfd(?key \<mapsto> LTrue)) \<union> fst ` set (fst rest) \<subseteq> dom (snd rest)"
    and eq: "(\<exists>w \<in> set windows. window_has_tick w) \<longrightarrow>
               dom (snd rest) = dom (lfd(?key \<mapsto> LTrue)) \<union> fst ` set (fst rest)"
    by blast+
  from Frequency_windows_keys [OF rows] have keys: "fst ` set rows \<subseteq> {?key}" .
  have "dom lfd \<union> fst ` set (fst res) \<subseteq> dom (snd res)"
    using sub keys by (auto simp: res)
  moreover have "dom (snd res) = dom lfd \<union> fst ` set (fst res)"
    if tick: "\<exists>w \<in> set windows. window_has_tick w"
  proof -
    from Frequency_windows_tick [OF rows tick] keys have "fst ` set rows = {?key}"
      by (cases rows) auto
    with eq tick show ?thesis
      by (auto simp: res)
  qed
  ultimately show ?case by blast
qed

lemma Make_Rows_For_Trip_dom:
  assumes "Make_Rows_For_Trip c trd fd trip_id lfd = Inr res"
    and "\<forall>windows. fd trip_id = Some windows \<longrightarrow> (\<exists>w \<in> set windows. window_has_tick w)"
  shows "dom (snd res) = dom lfd \<union> fst ` set (fst res)"
proof -
  from assms(1) obtain visits where visits: "c (stoptimefetch trip_id) = Inr visits"
    by (auto simp: Make_Rows_For_Trip_def split: sum.splits)
  show ?thesis
  proof (cases "fd trip_id")
    case None
    with assms(1) visits show ?thesis
      by (simp add: Make_Rows_For_Trip_def Make_StopsTimes_Rows_dom)
  next
    case (Some windows)
    with assms(2) have tick: "\<exists>w \<in> set windows. window_has_tick w" by simp
    from assms(1) Some visits have fr: "Make_Frequency_Rows trd fd trip_id visits lfd = Inr res"
      by (simp add: Make_Rows_For_Trip_def)
    show ?thesis
    proof (cases "length visits < 2")
      case True
      with fr show ?thesis by (auto simp: Make_Frequency_Rows_def)
    next
      case False
      with fr obtain rt s0 a0 d0 where
        "Frequency_loop rt trip_id fd d0 (tl visits) s0 d0 lfd = Inr res"
        by (auto simp: Make_Frequency_Rows_def split: option.splits prod.splits)
      from Frequency_loop_dom [OF Some this] tick show ?thesis by blast
    qed
  qed
qed

lemma chain_rows_dom:
  assumes "\<forall>t windows. fd t = Some windows \<longrightarrow> (\<exists>w \<in> set windows. window_has_tick w)"
  shows "chain_rows c trd fd trip_ids lfd = Inr res \<Longrightarrow>
         dom (snd res) = dom lfd \<union> fst ` set (fst res)"
proof (induction trip_ids arbitrary: lfd res)
  case Nil
  then show ?case by auto
next
  case (Cons t ts)
  from Cons.prems obtain res_t rest where
    t: "Make_Rows_For_Trip c trd fd t lfd = Inr res_t"
    and rest: "chain_rows c trd fd ts (snd res_t) = Inr rest"
    and res: "res = (fst res_t @ fst rest, snd rest)"
    by (auto split: sum.splits)
  from assms have "\<forall>windows. fd t = Some windows \<longrightarrow> (\<exists>w \<in> set windows. window_has_tick w)"
    by blast
  from Make_Rows_For_Trip_dom [OF t this] Cons.IH [OF rest] show ?case
    by (auto simp: res)
qed

text \<open>
  Claim C6, as amended. When the script has made its rows, and every trip of
  \<open>frequencies_dict\<close> has a window with at least one tick, the keys of \<open>linefeature_dict\<close>
  are exactly the keys of the rows: every key has a row.
\<close>

theorem registry_keys_have_rows:
  assumes "snd (GenerateStopPairs db) = Inr (rows, lfd)"
    and "\<forall>t. spec_windows (frequencies db) t \<noteq> [] \<longrightarrow>
             (\<exists>w \<in> set (spec_windows (frequencies db) t). window_has_tick w)"
  shows "dom lfd = fst ` set rows"
proof -
  from GenerateStopPairs_Inr_reached [OF assms(1)]
  have none: "find (\<lambda>errors. errors \<noteq> []) (GTFSErrors db) = None"
    and nodup: "tripDuplicateFetch (trips db) = []"
    by simp_all
  have ticks: "\<forall>t windows. fst (make_frequencies_dict db) t = Some windows \<longrightarrow>
                 (\<exists>w \<in> set windows. window_has_tick w)"
  proof (intro allI impI)
    fix t windows
    assume "fst (make_frequencies_dict db) t = Some windows"
    then have "spec_windows (frequencies db) t \<noteq> []" and "windows = spec_windows (frequencies db) t"
      by (auto simp: make_frequencies_dict_def frequencies_loop_empty split: if_splits)
    with assms(2) show "\<exists>w \<in> set windows. window_has_tick w" by simp
  qed
  from assms(1) have "chain_rows (c_execute db) (fst (make_trip_routetype_dict db))
      (fst (make_frequencies_dict db)) (map fst (fst (make_trip_routetype_dict db))) Map.empty
      = Inr (rows, lfd)"
    by (simp add: GenerateStopPairs_snd [OF none nodup])
  from chain_rows_dom [OF ticks this] show ?thesis by simp
qed

theorem registry_keys_have_rows_witness:
  "snd (GenerateStopPairs
          \<lparr>GTFSErrors = [], overlapwarning = [], routes = [(''R1'', PInt 3)],
           trips = [(''T2'', ''R1'')], frequencies = [(''T2'', 0, 1200, 600)],
           c_execute = (\<lambda>q. Inr [(''A'', 0, 0), (''B'', 5, 10)])\<rparr>) =
     Inr ([(''A , B , 3'', 0, 5, ''T2''), (''A , B , 3'', 600, 605, ''T2'')],
          [''A , B , 3'' \<mapsto> LTrue]) \<and>
   dom [''A , B , 3'' \<mapsto> LTrue] =
     fst ` set [(''A , B , 3'', 0 :: int, 5 :: int, ''T2''), (''A , B , 3'', 600, 605, ''T2'')]"
proof -
  let ?db = "\<lparr>GTFSErrors = [], overlapwarning = [], routes = [(''R1'', PInt 3)],
           trips = [(''T2'', ''R1'')], frequencies = [(''T2'', 0, 1200, 600)],
           c_execute = (\<lambda>q. Inr [(''A'', 0, 0), (''B'', 5, 10)])\<rparr>"
  have r: "py_round 0 = 0" "py_round 1200 = 1200"
    using py_round_of_int [of 0] py_round_of_int [of 1200] by simp_all
  have ticks: "range_up 0 1200 600 = [0, 600]"
    by (simp add: range_up.simps)
  have fd: "fst (make_frequencies_dict ?db) = [''T2'' \<mapsto> [(0, 1200, 600)]]"
    by (simp add: make_frequencies_dict_def)
  have trd: "fst (make_trip_routetype_dict ?db) = [(''T2'', PInt 3)]"
    by (simp add: make_trip_routetype_dict_def)
  have run: "snd (GenerateStopPairs ?db) =
     Inr ([(''A , B , 3'', 0, 5, ''T2''), (''A , B , 3'', 600, 605, ''T2'')],
          [''A , B , 3'' \<mapsto> LTrue])"
    by (simp add: GenerateStopPairs_def tripDuplicateFetch_def fd trd
        Make_Rows_For_Trip_def Make_Frequency_Rows_def py_range_def r ticks
        SourceOIDkey_of_def fmt_s_def str_int_3 Let_def)
  have tick: "\<forall>t. spec_windows (frequencies ?db) t \<noteq> [] \<longrightarrow>
             (\<exists>w \<in> set (spec_windows (frequencies ?db) t). window_has_tick w)"
    by (simp add: spec_windows_def window_has_tick_def r)
  from registry_keys_have_rows [OF run tick] run show ?thesis by simp
qed

text \<open>
  Claim C6 as stated fails: a frequency trip whose only window ends before it starts has
  no tick, so its key is in \<open>linefeature_dict\<close> and no row carries it.
\<close>

theorem registry_key_without_row_counterexample:
  "snd (GenerateStopPairs
          \<lparr>GTFSErrors = [], overlapwarning = [], routes = [(''R1'', PInt 3)],
           trips = [(''T2'', ''R1'')], frequencies = [(''T2'', 7200, 3600, 600)],
           c_execute = (\<lambda>q. Inr [(''A'', 0, 0), (''B'', 5, 10)])\<rparr>) =
     Inr ([], [''A , B , 3'' \<mapsto> LTrue])"
proof -
  let ?db = "\<lparr>GTFSErrors = [], overlapwarning = [], routes = [(''R1'', PInt 3)],
           trips = [(''T2'', ''R1'')], frequencies = [(''T2'', 7200, 3600, 600)],
           c_execute = (\<lambda>q. Inr [(''A'', 0, 0), (''B'', 5, 10)])\<rparr>"
  have r: "py_round 7200 = 7200" "py_round 3600 = 3600"
    using py_round_of_int [of 7200] py_round_of_int [of 3600] by simp_all
  have ticks: "range_up 7200 3600 600 = []"
    by (simp add: range_up.simps)
  have fd: "fst (make_frequencies_dict ?db) = [''T2'' \<mapsto> [(7200, 3600, 600)]]"
    by (simp add: make_frequencies_dict_def)
  have trd: "fst (make_trip_routetype_dict ?db) = [(''T2'', PInt 3)]"
    by (simp add: make_trip_routetype_dict_def)
  show ?thesis
    by (simp add: GenerateStopPairs_def tripDuplicateFetch_def fd trd
        Make_Rows_For_Trip_def Make_Frequency_Rows_def py_range_def r ticks
        SourceOIDkey_of_def fmt_s_def str_int_3 Let_def)
qed

section \<open>The edges of the input and the entries of the line feature dictionary\<close>

lemma StopsTimes_loop_keys:
  "dom (snd (StopsTimes_loop rt tid sts prev start lfd)) =
     dom lfd \<union> (\<lambda>seg. SourceOIDkey_of (fst (fst seg)) (fst (snd seg)) rt)
                  ` set (zip ((prev, a, start) # sts) sts)"
proof (induction sts arbitrary: prev start lfd a)
  case Nil
  then show ?case by simp
next
  case (Cons st sts)
  obtain stop_id arrival departure where st: "st = (stop_id, arrival, departure)"
    by (cases st) auto
  define key where "key = SourceOIDkey_of prev stop_id rt"
  define rest where
    "rest = StopsTimes_loop rt tid sts stop_id departure (lfd(key \<mapsto> LTrue))"
  define segs where "segs = (\<lambda>seg. SourceOIDkey_of (fst (fst seg)) (fst (snd seg)) rt)
                  ` set (zip ((stop_id, arrival, departure) # sts) sts)"
  have "dom (snd rest) = dom (lfd(key \<mapsto> LTrue)) \<union> segs"
    unfolding rest_def segs_def by (rule Cons.IH)
  moreover have "StopsTimes_loop rt tid (st # sts) prev start lfd =
      ((key, start, arrival, tid) # fst rest, snd rest)"
    by (simp add: st Let_def key_def rest_def)
  moreover have "(\<lambda>seg. SourceOIDkey_of (fst (fst seg)) (fst (snd seg)) rt)
                  ` set (zip ((prev, a, start) # st # sts) (st # sts)) = insert key segs"
    by (simp add: st key_def segs_def)
  ultimately show ?case by (simp only: snd_conv dom_fun_upd) auto
qed

lemma Frequency_loop_keys:
  "Frequency_loop rt tid fd first sts prev start lfd = Inr res \<Longrightarrow>
   dom (snd res) =
     dom lfd \<union> (\<lambda>seg. SourceOIDkey_of (fst (fst seg)) (fst (snd seg)) rt)
                  ` set (zip ((prev, a, start) # sts) sts)"
proof (induction sts arbitrary: prev start lfd a res)
  case Nil
  then show ?case by auto
next
  case (Cons st sts)
  obtain stop_id arrival departure where st: "st = (stop_id, arrival, departure)"
    by (cases st) auto
  define key where "key = SourceOIDkey_of prev stop_id rt"
  define segs where "segs = (\<lambda>seg. SourceOIDkey_of (fst (fst seg)) (fst (snd seg)) rt)
                  ` set (zip ((stop_id, arrival, departure) # sts) sts)"
  from Cons.prems obtain rows rest where
    rest: "Frequency_loop rt tid fd first sts stop_id departure (lfd(key \<mapsto> LTrue)) = Inr rest"
    and res: "res = (rows @ fst rest, snd rest)"
    by (auto simp: st Let_def key_def split: option.splits sum.splits)
  have "dom (snd rest) = dom (lfd(key \<mapsto> LTrue)) \<union> segs"
    unfolding segs_def by (rule Cons.IH [OF rest])
  moreover have "(\<lambda>seg. SourceOIDkey_of (fst (fst seg)) (fst (snd seg)) rt)
                  ` set (zip ((prev, a, start) # st # sts) (st # sts)) = insert key segs"
    by (simp add: st key_def segs_def)
  ultimately show ?case by (simp only: res snd_conv dom_fun_upd) auto
qed

lemma Make_Rows_For_Trip_keys:
  assumes "Make_Rows_For_Trip (c_execute db) (fst (make_trip_routetype_dict db)) fd t lfd = Inr res"
    and "map_of (fst (make_trip_routetype_dict db)) t \<noteq> None"
  shows "dom (snd res) = dom lfd \<union> edge_key ` set (spec_trip_edges db t)"
proof -
  let ?trd = "fst (make_trip_routetype_dict db)"
  from assms(1) obtain visits where visits: "c_execute db (stoptimefetch t) = Inr visits"
    by (auto simp: Make_Rows_For_Trip_def split: sum.splits)
  from assms(2) obtain rt where rt: "map_of ?trd t = Some rt" by auto
  have edges: "edge_key ` set (spec_trip_edges db t) =
      (\<lambda>seg. SourceOIDkey_of (fst (fst seg)) (fst (snd seg)) rt) ` set (zip visits (tl visits))"
    by (simp add: spec_trip_edges_def visits rt edge_key_def image_image)
  show ?thesis
  proof (cases "length visits < 2")
    case True
    then have "zip visits (tl visits) = []"
      by (cases visits) (auto simp: Suc_less_eq2)
    with assms(1) visits True edges show ?thesis
      by (auto simp: Make_Rows_For_Trip_def Make_Frequency_Rows_def Make_StopsTimes_Rows_def
          split: if_splits)
  next
    case False
    then obtain s0 a0 d0 sts where v: "visits = (s0, a0, d0) # sts"
      by (cases visits) auto
    show ?thesis
    proof (cases "fd t")
      case None
      with assms(1) visits False rt v
      have "res = StopsTimes_loop rt t sts s0 d0 lfd"
        by (simp add: Make_Rows_For_Trip_def Make_StopsTimes_Rows_def)
      with StopsTimes_loop_keys [of rt t sts s0 d0 lfd a0] edges v show ?thesis by simp
    next
      case (Some windows)
      with assms(1) visits False rt v
      have "Frequency_loop rt t fd d0 sts s0 d0 lfd = Inr res"
        by (simp add: Make_Rows_For_Trip_def Make_Frequency_Rows_def)
      from Frequency_loop_keys [OF this, of a0] edges v show ?thesis by simp
    qed
  qed
qed

lemma chain_rows_keys:
  "chain_rows (c_execute db) (fst (make_trip_routetype_dict db)) fd trip_ids lfd = Inr res \<Longrightarrow>
   \<forall>t \<in> set trip_ids. map_of (fst (make_trip_routetype_dict db)) t \<noteq> None \<Longrightarrow>
   dom (snd res) = dom lfd \<union> edge_key ` set (concat (map (spec_trip_edges db) trip_ids))"
proof (induction trip_ids arbitrary: lfd res)
  case Nil
  then show ?case by auto
next
  case (Cons t ts)
  from Cons.prems(1) obtain res_t rest where
    t: "Make_Rows_For_Trip (c_execute db) (fst (make_trip_routetype_dict db)) fd t lfd = Inr res_t"
    and rest: "chain_rows (c_execute db) (fst (make_trip_routetype_dict db)) fd ts (snd res_t) = Inr rest"
    and res: "res = (fst res_t @ fst rest, snd rest)"
    by (auto split: sum.splits)
  from Cons.prems(2) have here: "map_of (fst (make_trip_routetype_dict db)) t \<noteq> None"
    and others: "\<forall>t \<in> set ts. map_of (fst (make_trip_routetype_dict db)) t \<noteq> None"
    by simp_all
  from Make_Rows_For_Trip_keys [OF t here] Cons.IH [OF rest others] show ?case
    by (auto simp: res)
qed

lemma GenerateStopPairs_keys:
  assumes "snd (GenerateStopPairs db) = Inr (rows, lfd)"
  shows "dom lfd = edge_key ` set (spec_edges db)"
proof -
  from GenerateStopPairs_Inr_reached [OF assms]
  have none: "find (\<lambda>errors. errors \<noteq> []) (GTFSErrors db) = None"
    and nodup: "tripDuplicateFetch (trips db) = []"
    by simp_all
  from assms have "chain_rows (c_execute db) (fst (make_trip_routetype_dict db))
      (fst (make_frequencies_dict db)) (map fst (fst (make_trip_routetype_dict db))) Map.empty
      = Inr (rows, lfd)"
    by (simp add: GenerateStopPairs_snd [OF none nodup])
  from chain_rows_keys [OF this make_trip_routetype_dict_lookup] show ?thesis
    by (simp add: spec_edges_def)
qed

lemma Make_Rows_For_Trip_registered:
  assumes "Make_Rows_For_Trip c trd fd trip_id lfd = Inr res"
  shows "dom lfd \<union> fst ` set (fst res) \<subseteq> dom (snd res)"
proof -
  from assms obtain visits where visits: "c (stoptimefetch trip_id) = Inr visits"
    by (auto simp: Make_Rows_For_Trip_def split: sum.splits)
  show ?thesis
  proof (cases "fd trip_id")
    case None
    with assms visits have "Make_StopsTimes_Rows trd trip_id visits lfd = Inr res"
      by (simp add: Make_Rows_For_Trip_def)
    from Make_StopsTimes_Rows_dom [OF this] show ?thesis by simp
  next
    case (Some windows)
    with assms visits have fr: "Make_Frequency_Rows trd fd trip_id visits lfd = Inr res"
      by (simp add: Make_Rows_For_Trip_def)
    show ?thesis
    proof (cases "length visits < 2")
      case True
      with fr show ?thesis by (auto simp: Make_Frequency_Rows_def)
    next
      case False
      with fr obtain rt s0 a0 d0 where
        "Frequency_loop rt trip_id fd d0 (tl visits) s0 d0 lfd = Inr res"
        by (auto simp: Make_Frequency_Rows_def split: option.splits prod.splits)
      from Frequency_loop_dom [OF Some this] show ?thesis by blast
    qed
  qed
qed

lemma chain_rows_registered:
  "chain_rows c trd fd trip_ids lfd = Inr res \<Longrightarrow>
   dom lfd \<union> fst ` set (fst res) \<subseteq> dom (snd res)"
proof (induction trip_ids arbitrary: lfd res)
  case Nil
  then show ?case by auto
next
  case (Cons t ts)
  from Cons.prems obtain res_t rest where
    t: "Make_Rows_For_Trip c trd fd t lfd = Inr res_t"
    and rest: "chain_rows c trd fd ts (snd res_t) = Inr rest"
    and res: "res = (fst res_t @ fst rest, snd rest)"
    by (auto split: sum.splits)
  from Make_Rows_For_Trip_registered [OF t] Cons.IH [OF rest]
  have "dom lfd \<union> (fst ` set (fst res_t) \<union> fst ` set (fst rest)) \<subseteq> dom (snd rest)"
    by blast
  then show ?case by (simp add: res image_Un)
qed

lemma GenerateStopPairs_registered:
  assumes "snd (GenerateStopPairs db) = Inr (rows, lfd)"
  shows "fst ` set rows \<subseteq> dom lfd"
proof -
  from GenerateStopPairs_Inr_reached [OF assms]
  have none: "find (\<lambda>errors. errors \<noteq> []) (GTFSErrors db) = None"
    and nodup: "tripDuplicateFetch (trips db) = []"
    by simp_all
  from assms have "chain_rows (c_execute db) (fst (make_trip_routetype_dict db))
      (fst (make_frequencies_dict db)) (map fst (fst (make_trip_routetype_dict db))) Map.empty
      = Inr (rows, lfd)"
    by (simp add: GenerateStopPairs_snd [OF none nodup])
  from chain_rows_registered [OF this] show ?thesis by simp
qed

lemma edge_key_eq_iff:
  assumes "CHR '','' \<notin> set (fst e) \<union> set (fst (snd e)) \<union> set (fst e') \<union> set (fst (snd e'))"
  shows "edge_key e = edge_key e' \<longleftrightarrow>
           fst e = fst e' \<and> fst (snd e) = fst (snd e') \<and> fmt_s (snd (snd e)) = fmt_s (snd (snd e'))"
  unfolding edge_key_def by (rule SourceOIDkey_eq_iff [OF assms])

lemma card_edge_keys:
  assumes "\<forall>e \<in> E. CHR '','' \<notin> set (fst e) \<union> set (fst (snd e))"
  shows "card (edge_key ` E) = card ((\<lambda>e. (fst e, fst (snd e), fmt_s (snd (snd e)))) ` E)"
proof -
  let ?g = "\<lambda>e :: string \<times> string \<times> pyval. (fst e, fst (snd e), fmt_s (snd (snd e)))"
  let ?k = "\<lambda>p :: string \<times> string \<times> string. fst p @ '' , '' @ fst (snd p) @ '' , '' @ snd (snd p)"
  have comp: "edge_key e = ?k (?g e)" for e
    by (simp add: edge_key_def SourceOIDkey_of_def)
  have "inj_on ?k (?g ` E)"
  proof (rule inj_onI)
    fix x y assume "x \<in> ?g ` E" and "y \<in> ?g ` E" and eq: "?k x = ?k y"
    then obtain e e' where e: "e \<in> E" "x = ?g e" and e': "e' \<in> E" "y = ?g e'" by blast
    from assms e(1) e'(1)
    have "CHR '','' \<notin> set (fst e) \<union> set (fst (snd e)) \<union> set (fst e') \<union> set (fst (snd e'))"
      by blast
    from edge_key_eq_iff [OF this] eq e(2) e'(2) show "x = y"
      by (simp add: comp)
  qed
  then have "card (?k ` (?g ` E)) = card (?g ` E)" by (rule card_image)
  moreover have "?k ` (?g ` E) = edge_key ` E"
    by (simp add: image_image comp)
  ultimately show ?thesis by simp
qed

text \<open>
  Claim C5, as amended. On a run of the script that made its rows, \<open>linefeature_dict\<close>
  holds exactly the keys of the edges of the input (the tuples of from-stop, to-stop and
  mode of the pairs of consecutive visits of every trip), one entry for each key however
  many edges or rows have it, and every row carries a key that is registered. For stop
  identifiers without a comma, two edges have the same key exactly when they have the same
  from-stop, the same to-stop and the same mode as printed into the key, so the number of
  entries is the number of different tuples of from-stop, to-stop and printed mode; two
  integer modes print the same only when they are equal.
\<close>

theorem one_entry_per_key:
  assumes "snd (GenerateStopPairs db) = Inr (rows, lfd)"
  shows "dom lfd = edge_key ` set (spec_edges db) \<and>
         fst ` set rows \<subseteq> dom lfd \<and>
         (\<forall>e \<in> set (spec_edges db). \<forall>e' \<in> set (spec_edges db).
            CHR '','' \<notin> set (fst e) \<union> set (fst (snd e)) \<union> set (fst e') \<union> set (fst (snd e')) \<longrightarrow>
            (edge_key e = edge_key e' \<longleftrightarrow>
               fst e = fst e' \<and> fst (snd e) = fst (snd e') \<and>
               fmt_s (snd (snd e)) = fmt_s (snd (snd e')))) \<and>
         ((\<forall>e \<in> set (spec_edges db). CHR '','' \<notin> set (fst e) \<union> set (fst (snd e))) \<longrightarrow>
            card (dom lfd) =
              card ((\<lambda>e. (fst e, fst (snd e), fmt_s (snd (snd e)))) ` set (spec_edges db))) \<and>
         (\<forall>i j. fmt_s (PInt i) = fmt_s (PInt j) \<longleftrightarrow> i = j)"
proof -
  have keys: "dom lfd = edge_key ` set (spec_edges db)"
    by (rule GenerateStopPairs_keys [OF assms])
  have reg: "fst ` set rows \<subseteq> dom lfd"
    by (rule GenerateStopPairs_registered [OF assms])
  have eq: "\<forall>e \<in> set (spec_edges db). \<forall>e' \<in> set (spec_edges db).
            CHR '','' \<notin> set (fst e) \<union> set (fst (snd e)) \<union> set (fst e') \<union> set (fst (snd e')) \<longrightarrow>
            (edge_key e = edge_key e' \<longleftrightarrow>
               fst e = fst e' \<and> fst (snd e) = fst (snd e') \<and>
               fmt_s (snd (snd e)) = fmt_s (snd (snd e')))"
    using edge_key_eq_iff by blast
  have card: "(\<forall>e \<in> set (spec_edges db). CHR '','' \<notin> set (fst e) \<union> set (fst (snd e))) \<longrightarrow>
            card (dom lfd) =
              card ((\<lambda>e. (fst e, fst (snd e), fmt_s (snd (snd e)))) ` set (spec_edges db))"
    unfolding keys using card_edge_keys [of "set (spec_edges db)"] by blast
  have int: "\<forall>i j. fmt_s (PInt i) = fmt_s (PInt j) \<longleftrightarrow> i = j"
    by (simp add: fmt_s_def str_int_inj)
  from keys reg eq card int show ?thesis by blast
qed

lemma str_int_1: "str_int 1 = ''1''"
  by (simp add: str_int_def str_nat.simps digit_char_def)

theorem one_entry_per_key_witness:
  "\<exists>lfd. snd (GenerateStopPairs
          \<lparr>GTFSErrors = [], overlapwarning = [], routes = [(''R1'', PInt 3), (''R2'', PInt 1)],
           trips = [(''T1'', ''R1''), (''T2'', ''R1''), (''T3'', ''R2'')], frequencies = [],
           c_execute = (\<lambda>q. Inr [(''A'', 0, 0), (''B'', 5, 10)])\<rparr>) =
     Inr ([(''A , B , 3'', 0, 5, ''T1''), (''A , B , 3'', 0, 5, ''T2''),
           (''A , B , 1'', 0, 5, ''T3'')], lfd) \<and>
     dom lfd = {''A , B , 3'', ''A , B , 1''} \<and> card (dom lfd) = 2"
proof -
  let ?db = "\<lparr>GTFSErrors = [], overlapwarning = [], routes = [(''R1'', PInt 3), (''R2'', PInt 1)],
           trips = [(''T1'', ''R1''), (''T2'', ''R1''), (''T3'', ''R2'')], frequencies = [],
           c_execute = (\<lambda>q. Inr [(''A'', 0, 0), (''B'', 5, 10)])\<rparr>"
  let ?rows = "[(''A , B , 3'', 0, 5, ''T1''), (''A , B , 3'', 0, 5, ''T2''),
           (''A , B , 1'', 0, 5, ''T3'')] :: schedule_row list"
  let ?lfd = "[''A , B , 3'' \<mapsto> LTrue, ''A , B , 3'' \<mapsto> LTrue, ''A , B , 1'' \<mapsto> LTrue]"
  have trd: "fst (make_trip_routetype_dict ?db) =
      [(''T1'', PInt 3), (''T2'', PInt 3), (''T3'', PInt 1)]"
    by (simp add: make_trip_routetype_dict_def)
  have fd: "fst (make_frequencies_dict ?db) = Map.empty"
    by (simp add: make_frequencies_dict_def)
  have run: "snd (GenerateStopPairs ?db) = Inr (?rows, ?lfd)"
    by (simp add: GenerateStopPairs_def tripDuplicateFetch_def fd trd
        Make_Rows_For_Trip_def Make_StopsTimes_Rows_def
        SourceOIDkey_of_def fmt_s_def str_int_3 str_int_1 Let_def)
  have edges: "spec_edges ?db = [(''A'', ''B'', PInt 3), (''A'', ''B'', PInt 3), (''A'', ''B'', PInt 1)]"
    by (simp add: spec_edges_def spec_trip_edges_def trd)
  have nocomma: "\<forall>e \<in> set (spec_edges ?db). CHR '','' \<notin> set (fst e) \<union> set (fst (snd e))"
    by (simp add: edges)
  from one_entry_per_key [OF run] nocomma
  have "dom ?lfd = edge_key ` set (spec_edges ?db)"
    and "card (dom ?lfd) =
           card ((\<lambda>e. (fst e, fst (snd e), fmt_s (snd (snd e)))) ` set (spec_edges ?db))"
    by blast+
  then have "dom ?lfd = {''A , B , 3'', ''A , B , 1''}" and "card (dom ?lfd) = 2"
    by (simp_all add: edges edge_key_def SourceOIDkey_of_def fmt_s_def str_int_3 str_int_1)
  with run show ?thesis by blast
qed

text \<open>
  Claim C5 as stated fails: the key is the text of the three components joined by
  \<^verbatim>\<open>" , "\<close>, not the tuple. Two trips with the different edges \<^verbatim>\<open>("A , B", "C", 3)\<close> and
  \<^verbatim>\<open>("A", "B , C", 3)\<close> leave one entry in \<open>linefeature_dict\<close>, and so do two trips between
  the same stops with the integer mode 3 and the text mode \<^verbatim>\<open>"3"\<close>.
\<close>

theorem distinct_tuples_one_key_counterexample:
  "spec_edges
     \<lparr>GTFSErrors = [], overlapwarning = [], routes = [(''R1'', PInt 3)],
      trips = [(''T1'', ''R1''), (''T2'', ''R1'')], frequencies = [],
      c_execute = (\<lambda>q. if q = stoptimefetch ''T1'' then Inr [(''A , B'', 0, 0), (''C'', 5, 10)]
                         else Inr [(''A'', 0, 0), (''B , C'', 5, 10)])\<rparr> =
     [(''A , B'', ''C'', PInt 3), (''A'', ''B , C'', PInt 3)] \<and>
   snd (GenerateStopPairs
     \<lparr>GTFSErrors = [], overlapwarning = [], routes = [(''R1'', PInt 3)],
      trips = [(''T1'', ''R1''), (''T2'', ''R1'')], frequencies = [],
      c_execute = (\<lambda>q. if q = stoptimefetch ''T1'' then Inr [(''A , B'', 0, 0), (''C'', 5, 10)]
                         else Inr [(''A'', 0, 0), (''B , C'', 5, 10)])\<rparr>) =
     Inr ([(''A , B , C , 3'', 0, 5, ''T1''), (''A , B , C , 3'', 0, 5, ''T2'')],
          [''A , B , C , 3'' \<mapsto> LTrue]) \<and>
   spec_edges
     \<lparr>GTFSErrors = [], overlapwarning = [], routes = [(''R1'', PInt 3), (''R2'', PStr ''3'')],
      trips = [(''T1'', ''R1''), (''T2'', ''R2'')], frequencies = [],
      c_execute = (\<lambda>q. Inr [(''A'', 0, 0), (''B'', 5, 10)])\<rparr> =
     [(''A'', ''B'', PInt 3), (''A'', ''B'', PStr ''3'')] \<and>
   snd (GenerateStopPairs
     \<lparr>GTFSErrors = [], overlapwarning = [], routes = [(''R1'', PInt 3), (''R2'', PStr ''3'')],
      trips = [(''T1'', ''R1''), (''T2'', ''R2'')], frequencies = [],
      c_execute = (\<lambda>q. Inr [(''A'', 0, 0), (''B'', 5, 10)])\<rparr>) =
     Inr ([(''A , B , 3'', 0, 5, ''T1''), (''A , B , 3'', 0, 5, ''T2'')],
          [''A , B , 3'' \<mapsto> LTrue])"
  by (simp add: GenerateStopPairs_def tripDuplicateFetch_def make_trip_routetype_dict_def
      make_frequencies_dict_def overlap_messages_def spec_edges_def spec_trip_edges_def
      Make_Rows_For_Trip_def Make_StopsTimes_Rows_def stoptimefetch_def
      SourceOIDkey_of_def fmt_s_def str_int_3 Let_def)

section \<open>The ObjectIDs in the schedules table: the update\<close>

lemma del_keys_Inr:
  "del_keys keys lfd = Inr lfd' \<Longrightarrow> lfd' = (\<lambda>k. if k \<in> set keys then None else lfd k)"
proof (induction keys arbitrary: lfd)
  case Nil
  then show ?case by simp
next
  case (Cons key keys)
  from Cons.prems obtain v where "lfd key = Some v" and "del_keys keys (lfd(key := None)) = Inr lfd'"
    by (auto split: option.splits)
  from Cons.IH [OF this(2)] show ?case
    by (auto simp: fun_eq_iff)
qed

lemma cur4_row_dict:
  "cur4_row maxint row lfd = Inr res \<Longrightarrow> snd res = lfd(fst row \<mapsto> LOid (snd row))"
  by (auto simp: cur4_row_def Let_def split: if_splits option.splits)

lemma cur4_loop_dict:
  "cur4_loop maxint lines lfd = Inr res \<Longrightarrow> distinct (map fst lines) \<Longrightarrow>
   snd res k = (case map_of lines k of Some oid \<Rightarrow> Some (LOid oid) | None \<Rightarrow> lfd k)"
proof (induction lines arbitrary: lfd res)
  case Nil
  then show ?case by auto
next
  case (Cons row lines)
  from Cons.prems(1) obtain res_row rest where
    row: "cur4_row maxint row lfd = Inr res_row"
    and rest: "cur4_loop maxint lines (snd res_row) = Inr rest"
    and res: "res = (fst res_row # fst rest, snd rest)"
    by (auto split: sum.splits)
  from Cons.prems(2) have d: "distinct (map fst lines)" and new: "fst row \<notin> fst ` set lines"
    by auto
  from new have none: "map_of lines (fst row) = None"
    by (simp add: map_of_eq_None_iff)
  have "snd rest k = (case map_of lines k of Some oid \<Rightarrow> Some (LOid oid)
                      | None \<Rightarrow> (lfd(fst row \<mapsto> LOid (snd row))) k)"
    unfolding cur4_row_dict [OF row, symmetric] by (rule Cons.IH [OF rest d])
  with none show ?case
    by (cases row) (auto simp: res split: option.splits)
qed

text \<open>
  Claim C3, as amended. Take a run of the script that made its rows, then deleted keys
  from \<open>linefeature_dict\<close> (those of missing stops and of lines of length 0), then wrote
  the ObjectID of every line into \<open>linefeature_dict\<close>, the lines being one for every
  key that is left. The update of the schedules table then never fails, keeps the number
  of rows and, in every row, the inserted columns with the key, and sets \<open>SourceOID\<close> to
  -1 in every row whose key was deleted and to the ObjectID of the line of its key in
  every other row.
\<close>

theorem resolver_sets_oid_or_sentinel:
  assumes "snd (GenerateStopPairs db) = Inr (rows, lfd0)"
    and "del_keys dropped lfd0 = Inr lfd1"
    and "cur4_loop maxint lines lfd1 = Inr (line_fields, lfd2)"
    and "fst ` set lines = dom lfd1" and "distinct (map fst lines)"
    and "i < length rows"
  shows "length (update_schedules lfd2 (Insert_Schedules rows)) = length rows \<and>
         fst (update_schedules lfd2 (Insert_Schedules rows) ! i) = rows ! i \<and>
         (fst (rows ! i) \<in> set dropped \<longrightarrow>
            snd (update_schedules lfd2 (Insert_Schedules rows) ! i) = Some (- 1)) \<and>
         (fst (rows ! i) \<notin> set dropped \<longrightarrow>
            (\<exists>oid. (fst (rows ! i), oid) \<in> set lines \<and>
                   snd (update_schedules lfd2 (Insert_Schedules rows) ! i) = Some oid))"
proof -
  let ?key = "fst (rows ! i)"
  from del_keys_Inr [OF assms(2)]
  have lfd1: "lfd1 = (\<lambda>k. if k \<in> set dropped then None else lfd0 k)" .
  from cur4_loop_dict [OF assms(3,5), of ?key]
  have lfd2: "lfd2 ?key = (case map_of lines ?key of Some oid \<Rightarrow> Some (LOid oid)
                           | None \<Rightarrow> lfd1 ?key)"
    by simp
  have row: "update_schedules lfd2 (Insert_Schedules rows) ! i =
      (rows ! i, Some (getSourceOID lfd2 ?key))"
    using assms(6) by (simp add: update_schedules_def Insert_Schedules_def)
  have len: "length (update_schedules lfd2 (Insert_Schedules rows)) = length rows"
    by (simp add: update_schedules_def Insert_Schedules_def)
  have gone: "getSourceOID lfd2 ?key = - 1" if "?key \<in> set dropped"
  proof -
    from that have "lfd1 ?key = None" by (simp add: lfd1)
    then have "?key \<notin> dom lfd1" by blast
    with assms(4) have "map_of lines ?key = None"
      by (simp add: map_of_eq_None_iff)
    with lfd2 \<open>lfd1 ?key = None\<close> show ?thesis
      by (simp add: getSourceOID_def)
  qed
  have kept: "\<exists>oid. (?key, oid) \<in> set lines \<and> getSourceOID lfd2 ?key = oid"
    if "?key \<notin> set dropped"
  proof -
    from assms(6) have "?key \<in> fst ` set rows" by simp
    with GenerateStopPairs_registered [OF assms(1)] have "?key \<in> dom lfd0" by blast
    with that have "?key \<in> dom lfd1" by (auto simp: lfd1)
    with assms(4) have "?key \<in> fst ` set lines" by simp
    then obtain oid where oid: "(?key, oid) \<in> set lines" by force
    with assms(5) have "map_of lines ?key = Some oid" by simp
    with lfd2 have "getSourceOID lfd2 ?key = oid"
      by (simp add: getSourceOID_def sql_int_def)
    with oid show ?thesis by blast
  qed
  from row len gone kept show ?thesis by simp
qed

theorem resolver_sets_oid_or_sentinel_witness:
  "\<exists>lfd0 lfd2.
     snd (GenerateStopPairs
            \<lparr>GTFSErrors = [], overlapwarning = [], routes = [(''R1'', PInt 3)],
             trips = [(''T1'', ''R1'')], frequencies = [],
             c_execute = (\<lambda>q. Inr [(''A'', 0, 0), (''B'', 5, 10), (''C'', 15, 15)])\<rparr>) =
       Inr ([(''A , B , 3'', 0, 5, ''T1''), (''B , C , 3'', 10, 15, ''T1'')], lfd0) \<and>
     del_keys [''A , B , 3''] lfd0 = Inr [''B , C , 3'' \<mapsto> LTrue] \<and>
     cur4_loop 2147483647 [(''B , C , 3'', 8)] [''B , C , 3'' \<mapsto> LTrue] =
       Inr ([(Some 3, ''Bus'')], lfd2) \<and>
     update_schedules lfd2
       (Insert_Schedules [(''A , B , 3'', 0, 5, ''T1''), (''B , C , 3'', 10, 15, ''T1'')]) =
     [((''A , B , 3'', 0, 5, ''T1''), Some (- 1)), ((''B , C , 3'', 10, 15, ''T1''), Some 8)]"
proof -
  let ?db = "\<lparr>GTFSErrors = [], overlapwarning = [], routes = [(''R1'', PInt 3)],
             trips = [(''T1'', ''R1'')], frequencies = [],
             c_execute = (\<lambda>q. Inr [(''A'', 0, 0), (''B'', 5, 10), (''C'', 15, 15)])\<rparr>"
  let ?rows = "[(''A , B , 3'', 0, 5, ''T1''), (''B , C , 3'', 10, 15, ''T1'')] :: schedule_row list"
  let ?lfd0 = "[''A , B , 3'' \<mapsto> LTrue, ''B , C , 3'' \<mapsto> LTrue]"
  let ?lfd1 = "[''B , C , 3'' \<mapsto> LTrue]"
  let ?lfd2 = "[''B , C , 3'' \<mapsto> LOid 8]"
  let ?lines = "[(''B , C , 3'', 8)] :: (string \<times> int) list"
  let ?upd = "update_schedules ?lfd2 (Insert_Schedules ?rows)"
  have run: "snd (GenerateStopPairs ?db) = Inr (?rows, ?lfd0)"
    by (simp add: GenerateStopPairs_def tripDuplicateFetch_def make_trip_routetype_dict_def
        make_frequencies_dict_def overlap_messages_def Make_Rows_For_Trip_def
        Make_StopsTimes_Rows_def SourceOIDkey_of_def fmt_s_def str_int_3 Let_def)
  have del: "del_keys [''A , B , 3''] ?lfd0 = Inr ?lfd1"
    by (simp add: fun_eq_iff)
  have split: "split_key ''B , C , 3'' = [''B'', ''C'', ''3'']"
    using split_key_SourceOIDkey [of "''B''" "''C''" "PStr ''3''"]
    by (simp add: SourceOIDkey_of_def fmt_s_def)
  have p: "py_int ''3'' = Some 3"
    using py_int_str_int [of 3] by (simp add: str_int_3)
  have cur4: "cur4_loop 2147483647 ?lines ?lfd1 = Inr ([(Some 3, ''Bus'')], ?lfd2)"
    by (simp add: cur4_row_def split p route_type_dict_def Let_def)
  have lines: "fst ` set ?lines = dom ?lfd1" by simp
  have d: "distinct (map fst ?lines)" by simp
  have i0: "0 < length ?rows" and i1: "1 < length ?rows" by simp_all
  from resolver_sets_oid_or_sentinel [OF run del cur4 lines d i0]
  have len: "length ?upd = 2" and r0: "?upd ! 0 = ((''A , B , 3'', 0, 5, ''T1''), Some (- 1))"
    by (simp_all add: prod_eq_iff)
  from resolver_sets_oid_or_sentinel [OF run del cur4 lines d i1]
  have r1: "?upd ! 1 = ((''B , C , 3'', 10, 15, ''T1''), Some 8)"
    by (simp add: prod_eq_iff)
  have "?upd = [((''A , B , 3'', 0, 5, ''T1''), Some (- 1)), ((''B , C , 3'', 10, 15, ''T1''), Some 8)]"
  proof (rule nth_equalityI)
    show "length ?upd =
          length [((''A , B , 3'', 0::int, 5::int, ''T1''), Some (- 1 :: int)), ((''B , C , 3'', 10, 15, ''T1''), Some 8)]"
      using len by simp
  next
    fix i assume "i < length ?upd"
    with len have "i = 0 \<or> i = 1" by auto
    then show "?upd ! i =
        [((''A , B , 3'', 0, 5, ''T1''), Some (- 1)), ((''B , C , 3'', 10, 15, ''T1''), Some 8)] ! i"
      using r0 r1 by auto
  qed
  with run del cur4 show ?thesis by blast
qed

text \<open>
  Claim C3 as stated fails in two points. The update does not replace the key: it writes
  the ObjectID into the column \<open>SourceOID\<close> and leaves the key in the column
  \<open>SourceOIDKey\<close>, in resolved rows and in rows that get -1 alike. And a key that is left
  in \<open>linefeature_dict\<close> with no line made for it still maps to \<open>True\<close>, so its rows get
  neither -1 nor an ObjectID, but 1.
\<close>

theorem resolver_keeps_key_counterexample:
  "update_schedules [''B , C , 3'' \<mapsto> LOid 8]
     (Insert_Schedules [(''A , B , 3'', 0, 5, ''T1''), (''B , C , 3'', 10, 15, ''T1'')]) =
     [((''A , B , 3'', 0, 5, ''T1''), Some (- 1)), ((''B , C , 3'', 10, 15, ''T1''), Some 8)] \<and>
   map (\<lambda>r. fst (fst r))
     (update_schedules [''B , C , 3'' \<mapsto> LOid 8]
        (Insert_Schedules [(''A , B , 3'', 0, 5, ''T1''), (''B , C , 3'', 10, 15, ''T1'')])) =
     [''A , B , 3'', ''B , C , 3''] \<and>
   cur4_loop 2147483647 [] [''B , C , 3'' \<mapsto> LTrue] = Inr ([], [''B , C , 3'' \<mapsto> LTrue]) \<and>
   update_schedules [''B , C , 3'' \<mapsto> LTrue] (Insert_Schedules [(''B , C , 3'', 10, 15, ''T1'')]) =
     [((''B , C , 3'', 10, 15, ''T1''), Some 1)]"
  by (simp add: update_schedules_def Insert_Schedules_def getSourceOID_def sql_int_def)

text \<open>
  Claim C4. Updating the schedules table a second time from the same \<open>linefeature_dict\<close>
  changes no row.
\<close>

theorem resolver_idempotent:
  "update_schedules lfd (update_schedules lfd table) = update_schedules lfd table"
  by (simp add: update_schedules_def)

section \<open>The route type of a line\<close>

text \<open>
  Claim C8, as amended. For an edge whose stop identifiers and printed mode hold no comma,
  the row for \<open>linefeatures\<close> has the stops of the key and, as route type, the integer the
  printed mode parses to, whatever integer it is, or else the text \<^verbatim>\<open>"NULL"\<close>; the line gets
  that integer as \<open>route_type\<close> when it is a machine integer, and no value otherwise, and the
  raw mode is kept only inside \<open>route_type_text\<close>. Every integer mode parses back to itself.
\<close>

theorem route_type_of_key:
  assumes "CHR '','' \<notin> set from_stop \<union> set to_stop \<union> set (fmt_s mode)"
    and "lfd (SourceOIDkey_of from_stop to_stop mode) = Some SourceOID"
  shows "retrieve_linefeatures_info lfd (SourceOIDkey_of from_stop to_stop mode) =
           Inr (SourceOID, from_stop, to_stop,
                case py_int (fmt_s mode) of Some n \<Rightarrow> PInt n | None \<Rightarrow> PStr ''NULL'') \<and>
         cur4_row maxint (SourceOIDkey_of from_stop to_stop mode, line_oid) lfd =
           Inr ((case py_int (fmt_s mode) of
                   Some n \<Rightarrow> if - maxint - 1 \<le> n \<and> n \<le> maxint then Some n else None
                 | None \<Rightarrow> None,
                 case py_int (fmt_s mode) of
                   Some n \<Rightarrow> (case route_type_dict n of
                                Some t \<Rightarrow> t
                              | None \<Rightarrow> other_type_text (str_int n))
                 | None \<Rightarrow> other_type_text (fmt_s mode)),
                lfd(SourceOIDkey_of from_stop to_stop mode \<mapsto> LOid line_oid)) \<and>
         py_int (fmt_s (PInt i)) = Some i"
proof -
  from assms(1) have split: "split_key (SourceOIDkey_of from_stop to_stop mode) =
      [from_stop, to_stop, fmt_s mode]"
    by (intro split_key_SourceOIDkey) auto
  have "retrieve_linefeatures_info lfd (SourceOIDkey_of from_stop to_stop mode) =
           Inr (SourceOID, from_stop, to_stop,
                case py_int (fmt_s mode) of Some n \<Rightarrow> PInt n | None \<Rightarrow> PStr ''NULL'')"
    by (simp add: retrieve_linefeatures_info_def assms(2) split Let_def)
  moreover have "cur4_row maxint (SourceOIDkey_of from_stop to_stop mode, line_oid) lfd =
           Inr ((case py_int (fmt_s mode) of
                   Some n \<Rightarrow> if - maxint - 1 \<le> n \<and> n \<le> maxint then Some n else None
                 | None \<Rightarrow> None,
                 case py_int (fmt_s mode) of
                   Some n \<Rightarrow> (case route_type_dict n of
                                Some t \<Rightarrow> t
                              | None \<Rightarrow> other_type_text (str_int n))
                 | None \<Rightarrow> other_type_text (fmt_s mode)),
                lfd(SourceOIDkey_of from_stop to_stop mode \<mapsto> LOid line_oid))"
    by (simp add: cur4_row_def split Let_def split: option.splits)
  moreover have "py_int (fmt_s (PInt i)) = Some i"
    by (simp add: fmt_s_def py_int_str_int)
  ultimately show ?thesis by blast
qed

lemma str_int_100: "str_int 100 = ''100''"
  by (simp add: str_int_def str_nat.simps digit_char_def)

theorem route_type_of_key_witness:
  "retrieve_linefeatures_info [''A , B , 100'' \<mapsto> LTrue] ''A , B , 100'' =
     Inr (LTrue, ''A'', ''B'', PInt 100) \<and>
   cur4_row 2147483647 (''A , B , 100'', 7) [''A , B , 100'' \<mapsto> LTrue] =
     Inr ((Some 100, ''Other / Type not specified (100)''), [''A , B , 100'' \<mapsto> LOid 7])"
proof -
  have key: "SourceOIDkey_of ''A'' ''B'' (PInt 100) = ''A , B , 100''"
    by (simp add: SourceOIDkey_of_def fmt_s_def str_int_100)
  have h1: "CHR '','' \<notin> set ''A'' \<union> set ''B'' \<union> set (fmt_s (PInt 100))"
    by (simp add: fmt_s_def str_int_100)
  have h2: "[''A , B , 100'' \<mapsto> LTrue] (SourceOIDkey_of ''A'' ''B'' (PInt 100)) = Some LTrue"
    by (simp add: key)
  have p: "py_int (fmt_s (PInt 100)) = Some 100"
    using route_type_of_key [of "''A''" "''B''" "PInt 100" "[''A , B , 100'' \<mapsto> LTrue]" LTrue
        2147483647 7 100, OF h1 h2] by simp
  have d: "route_type_dict 100 = None"
    by (simp add: route_type_dict_def)
  from route_type_of_key [of "''A''" "''B''" "PInt 100" "[''A , B , 100'' \<mapsto> LTrue]" LTrue
      2147483647 7 100, OF h1 h2]
  show ?thesis
    by (simp add: key p d other_type_text_def str_int_100)
qed

text \<open>
  Claim C8 as stated fails twice: the mode 100, which is none of the GTFS route types (the
  script gives it to trips of unknown routes), is carried as the integer 100, and the mode
  \<^verbatim>\<open>"tram"\<close> is replaced by \<^verbatim>\<open>"NULL"\<close> in the row for \<open>linefeatures\<close> and by no value in the
  line's \<open>route_type\<close>.
\<close>

theorem route_type_counterexample:
  "route_type_dict 100 = None \<and>
   retrieve_linefeatures_info [''A , B , 100'' \<mapsto> LOid 7] ''A , B , 100'' =
     Inr (LOid 7, ''A'', ''B'', PInt 100) \<and>
   retrieve_linefeatures_info [''A , B , tram'' \<mapsto> LOid 8] ''A , B , tram'' =
     Inr (LOid 8, ''A'', ''B'', PStr ''NULL'') \<and>
   cur4_row 2147483647 (''A , B , tram'', 8) [''A , B , tram'' \<mapsto> LTrue] =
     Inr ((None, ''Other / Type not specified (tram)''), [''A , B , tram'' \<mapsto> LOid 8])"
proof -
  have s1: "split_key ''A , B , 100'' = [''A'', ''B'', ''100'']"
    using split_key_SourceOIDkey [of "''A''" "''B''" "PStr ''100''"]
    by (simp add: SourceOIDkey_of_def fmt_s_def)
  have s2: "split_key ''A , B , tram'' = [''A'', ''B'', ''tram'']"
    using split_key_SourceOIDkey [of "''A''" "''B''" "PStr ''tram''"]
    by (simp add: SourceOIDkey_of_def fmt_s_def)
  have p1: "py_int ''100'' = Some 100"
    using py_int_str_int [of 100] by (simp add: str_int_100)
  have p2: "py_int ''tram'' = None"
    by (simp add: py_int_def strip_def is_space_def digit_val_def)
  show ?thesis
    by (simp add: retrieve_linefeatures_info_def cur4_row_def s1 s2 p1 p2 route_type_dict_def
        other_type_text_def Let_def)
qed

end
